theory Spec2Isabelle
  imports Main "HOL-Library.Stream"
begin

section \<open>Port layer (package exec): containers, their states and subscriptions\<close>

text \<open>
  The Go type \<^verbatim>\<open>State\<close> is an integer enumeration; the model keeps the order of the
  constants in \<^verbatim>\<open>lib/portlayer/exec/container.go\<close>.
\<close>

datatype State =
    StateUnknown
  | StateStarting
  | StateRunning
  | StateStopping
  | StateStopped
  | StateSuspending
  | StateSuspended
  | StateCreated
  | StateCreating
  | StateRemoving
  | StateRemoved

definition all_states :: "State list" where
  "all_states = [StateUnknown, StateStarting, StateRunning, StateStopping, StateStopped,
     StateSuspending, StateSuspended, StateCreated, StateCreating, StateRemoving, StateRemoved]"

text \<open>
  Errors are values. \<^verbatim>\<open>TaskError f\<close> is an error that implements
  \<^verbatim>\<open>types.HasFault\<close> with fault \<open>f\<close>; \<^verbatim>\<open>SoapFault f\<close> is a SOAP fault;
  \<^verbatim>\<open>Errorf\<close> is a plain \<^verbatim>\<open>fmt.Errorf\<close> error, and \<^verbatim>\<open>Wrapped\<close> one whose
  message ends with the message of another error. A nil-pointer dereference, which
  panics in Go, is the value \<open>NilPointerPanic\<close>.
\<close>

datatype fault = ConcurrentAccess | InvalidState | ManagedObjectNotFound | OtherFault string

datatype error =
    Errorf string
  | TaskError fault
  | SoapFault fault
  | NotFoundError
  | RemovePowerError string
  | NilPointerPanic
  | Wrapped string error

datatype VirtualMachinePowerState = PoweredOff | PoweredOn | Suspended

record ExecutorConfig =
  ID :: string
  Sessions :: "(string \<times> string) list"  \<comment> \<open>session id, and its \<^verbatim>\<open>Started\<close> field\<close>

record VirtualMachineConfigInfo =
  ChangeVersion :: string

record VirtualMachineRuntimeInfo =
  PowerState :: VirtualMachinePowerState

text \<open>
  \<^verbatim>\<open>containerBase\<close> is declared in a file that is not part of the sources at hand; its
  fields are the ones \<^verbatim>\<open>container.go\<close> reads. Pointers that the code tests against
  nil are options.
\<close>

record containerBase =
  ExecConfig :: ExecutorConfig
  Config :: "VirtualMachineConfigInfo option"
  Runtime :: "VirtualMachineRuntimeInfo option"
  vm :: "string option"

definition get_base :: "'a containerBase_scheme \<Rightarrow> containerBase" where
  "get_base x = \<lparr>ExecConfig = ExecConfig x, Config = Config x, Runtime = Runtime x, vm = vm x\<rparr>"

definition set_base :: "containerBase \<Rightarrow> 'a containerBase_scheme \<Rightarrow> 'a containerBase_scheme" where
  "set_base b x = x\<lparr>ExecConfig := ExecConfig b, Config := Config b, Runtime := Runtime b, vm := vm b\<rparr>"

type_synonym chan = nat

record ContainerInfo = containerBase +
  state :: State
  VMUnsharedDisk :: int

record Container = ContainerInfo +
  logFollowers :: "nat list"
  newStateEvents :: "State \<rightharpoonup> chan"

text \<open>
  The mutation a handle carries (\<^verbatim>\<open>h.Spec.Spec()\<close>): the two fields Commit writes,
  and the rest of the specification as an opaque payload.
\<close>

record VirtualMachineConfigSpec =
  ChangeVersion :: string
  ExtraConfig :: "(string \<times> string) list option"
  Payload :: "string list"

record Handle = containerBase +
  Spec :: "VirtualMachineConfigSpec option"
  targetState :: State

record Session =
  IsVC :: bool

datatype ContainerEvent = ContainerCreated | ContainerStarted | ContainerStopped

text \<open>Every call to the virtualization platform is recorded, in order.\<close>

datatype call =
    CallCreateChildVM VirtualMachineConfigSpec
  | CallFolders
  | CallCreateVM VirtualMachineConfigSpec
  | CallBaseStart
  | CallBaseStop "int option"
  | CallUpdates
  | CallReconfigure string VirtualMachineConfigSpec
  | CallDSPath
  | CallDeleteExceptDisks
  | CallUnregister
  | CallDeleteDatastoreFile string
  | CallOpen string
  | CallTail int

text \<open>
  The world outside a container: the platform answers each kind of call from a stream of
  results (any platform behaviour is some choice of streams), channels are numbered and
  every \<^verbatim>\<open>close\<close> is logged, and the container cache \<^verbatim>\<open>Containers\<close> maps an ID to
  its entry.
\<close>

record world =
  base_start_results :: "error option stream"
  base_stop_results :: "error option stream"
  updates_results :: "(error + containerBase) stream"
  Reconfigure_results :: "error option stream"
  CreateVM_results :: "(error + string) stream"
  Folders_results :: "error option stream"
  DSPath_results :: "(error + string) stream"
  DeleteExceptDisks_results :: "error option stream"
  Unregister_results :: "error option stream"
  DeleteDatastoreFile_results :: "error option stream"
  Open_results :: "(error + nat) stream"
  Tail_results :: "error option stream"
  calls :: "call list"
  next_chan :: nat
  close_log :: "chan list"
  closed_followers :: "nat list"
  Containers :: "string \<rightharpoonup> Container"
  events :: "(string \<times> ContainerEvent) list"
  VirtualApp_ResourcePool :: bool  \<comment> \<open>\<^verbatim>\<open>Config.VirtualApp.ResourcePool != nil\<close>\<close>

subsection \<open>Channels\<close>

text \<open>
  \<^verbatim>\<open>closedEventChannel\<close> is created and closed once, when the package is initialised:
  it is channel 0, and a world starts with it closed.
\<close>

definition closedEventChannel :: chan where
  "closedEventChannel = 0"

definition make_chan :: "world \<Rightarrow> world \<times> chan" where
  "make_chan w = (w\<lparr>next_chan := Suc (next_chan w)\<rparr>, next_chan w)"

definition close_chan :: "chan \<Rightarrow> world \<Rightarrow> world" where
  "close_chan ch w = w\<lparr>close_log := close_log w @ [ch]\<rparr>"

definition is_closed :: "world \<Rightarrow> chan \<Rightarrow> bool" where
  "is_closed w ch = (ch \<in> set (close_log w))"

subsection \<open>newContainer, SetState, WaitForState\<close>

text \<open>
  \<^verbatim>\<open>newContainer\<close>. In the suspended case the source also logs
  \<^verbatim>\<open>base.vm.Reference()\<close>, which dereferences a nil \<^verbatim>\<open>vm\<close>; a base that has a
  runtime comes from a VM of the platform and has its \<^verbatim>\<open>vm\<close>, and the model leaves
  the log call out.
\<close>

fun any_started :: "(string \<times> string) list \<Rightarrow> bool" where
  "any_started [] = False"
| "any_started ((k, started) # ss) = (if started \<noteq> [] then True else any_started ss)"

definition newContainer :: "containerBase \<Rightarrow> Container" where
  "newContainer base =
     (let st = (case Runtime base of
                  None \<Rightarrow> StateCreated
                | Some rt \<Rightarrow>
                    (case PowerState rt of
                       PoweredOn \<Rightarrow> StateRunning
                     | PoweredOff \<Rightarrow>
                         (if any_started (Sessions (ExecConfig base)) then StateStopped
                          else StateCreated)
                     | Suspended \<Rightarrow> StateSuspended))
      in \<lparr>ExecConfig = ExecConfig base, Config = Config base, Runtime = Runtime base,
          vm = vm base, state = st, VMUnsharedDisk = 0, logFollowers = [],
          newStateEvents = Map.empty\<rparr>)"

definition CurrentState :: "Container \<Rightarrow> State" where
  "CurrentState c = state c"

definition Info :: "Container \<Rightarrow> ContainerInfo" where
  "Info c = \<lparr>ExecConfig = ExecConfig c, Config = Config c, Runtime = Runtime c, vm = vm c,
              state = state c, VMUnsharedDisk = VMUnsharedDisk c\<rparr>"

definition updateState :: "State \<Rightarrow> world \<Rightarrow> Container \<Rightarrow> world \<times> Container \<times> State" where
  "updateState s w c =
     (let prevState = state c in
      if s \<noteq> state c then
        (case newStateEvents c s of
           Some ch \<Rightarrow>
             (close_chan ch w,
              c\<lparr>state := s, newStateEvents := (newStateEvents c)(s := None)\<rparr>,
              prevState)
         | None \<Rightarrow> (w, c\<lparr>state := s\<rparr>, prevState))
      else (w, c, prevState))"

text \<open>\<^verbatim>\<open>SetState\<close> takes the container's lock and calls \<^verbatim>\<open>updateState\<close>.\<close>

definition SetState :: "State \<Rightarrow> world \<Rightarrow> Container \<Rightarrow> world \<times> Container \<times> State" where
  "SetState s w c = updateState s w c"

definition WaitForState :: "State \<Rightarrow> world \<Rightarrow> Container \<Rightarrow> world \<times> Container \<times> chan" where
  "WaitForState s w c =
     (if s = state c then (w, c, closedEventChannel)
      else
        (case newStateEvents c s of
           Some ch \<Rightarrow> (w, c, ch)
         | None \<Rightarrow>
             (let (w', eventChan) = make_chan w
              in (w', c\<lparr>newStateEvents := (newStateEvents c)(s \<mapsto> eventChan)\<rparr>, eventChan))))"

subsection \<open>Refresh, start, stop, Remove\<close>

definition ask_updates :: "world \<Rightarrow> world \<times> (error + containerBase)" where
  "ask_updates w =
     (w\<lparr>updates_results := stl (updates_results w), calls := calls w @ [CallUpdates]\<rparr>,
      shd (updates_results w))"

definition Refresh :: "world \<Rightarrow> Container \<Rightarrow> world \<times> Container \<times> error option" where
  "Refresh w c =
     (case ask_updates w of
        (w', Inl err) \<Rightarrow> (w', c, Some err)
      | (w', Inr base) \<Rightarrow> (w', set_base base c, None))"

text \<open>
  \<^verbatim>\<open>RefreshFromHandle\<close>: both log calls evaluate their arguments, so a handle
  without \<^verbatim>\<open>Config\<close> makes \<^verbatim>\<open>h.Config.ChangeVersion\<close> (in the warning) or
  \<^verbatim>\<open>c.Config.ChangeVersion\<close> (after the copy) dereference nil.
\<close>

definition RefreshFromHandle :: "Handle \<Rightarrow> Container \<Rightarrow> Container \<times> error option" where
  "RefreshFromHandle h c =
     (case Config c of
        None \<Rightarrow>
          (let c' = set_base (get_base h) c
           in (c', if Config c' = None then Some NilPointerPanic else None))
      | Some cc \<Rightarrow>
          (case Config h of
             None \<Rightarrow> (c, Some NilPointerPanic)
           | Some hc \<Rightarrow>
               if VirtualMachineConfigInfo.ChangeVersion hc \<noteq> VirtualMachineConfigInfo.ChangeVersion cc
               then (c, None)
               else (set_base (get_base h) c, None)))"

definition base_start :: "world \<Rightarrow> world \<times> error option" where
  "base_start w =
     (w\<lparr>base_start_results := stl (base_start_results w), calls := calls w @ [CallBaseStart]\<rparr>,
      shd (base_start_results w))"

definition base_stop :: "int option \<Rightarrow> world \<Rightarrow> world \<times> error option" where
  "base_stop waitTime w =
     (w\<lparr>base_stop_results := stl (base_stop_results w),
        calls := calls w @ [CallBaseStop waitTime]\<rparr>,
      shd (base_stop_results w))"

text \<open>
  \<^verbatim>\<open>start\<close>: the deferred \<^verbatim>\<open>c.updateState(finalState)\<close> runs on both exits; on a
  failure \<^verbatim>\<open>finalState\<close> has been set to \<^verbatim>\<open>StateStarting\<close>, on success to
  \<^verbatim>\<open>StateRunning\<close>.
\<close>

definition start :: "world \<Rightarrow> Container \<Rightarrow> world \<times> Container \<times> error option" where
  "start w c =
     (if vm c = None then (w, c, Some (Errorf ''vm not set''))
      else
        (case updateState StateStarting w c of
           (w1, c1, finalState) \<Rightarrow>
             (case base_start w1 of
                (w2, Some err) \<Rightarrow>
                  (case updateState StateStarting w2 c1 of (w3, c3, _) \<Rightarrow> (w3, c3, Some err))
              | (w2, None) \<Rightarrow>
                  (case updateState StateRunning w2 c1 of (w3, c3, _) \<Rightarrow> (w3, c3, None)))))"

definition onStop :: "world \<Rightarrow> Container \<Rightarrow> world \<times> Container" where
  "onStop w c =
     (w\<lparr>closed_followers := closed_followers w @ logFollowers c\<rparr>, c\<lparr>logFollowers := []\<rparr>)"

text \<open>
  \<^verbatim>\<open>stop\<close>: \<^verbatim>\<open>finalState\<close> is what \<^verbatim>\<open>updateState(StateStopping)\<close> returned, the state
  before the call; only the success path overwrites it. The deferred calls run last
  registered first: \<^verbatim>\<open>updateState(finalState)\<close>, then \<^verbatim>\<open>onStop\<close>.
\<close>

definition stop :: "world \<Rightarrow> Container \<Rightarrow> int option \<Rightarrow> world \<times> Container \<times> error option" where
  "stop w c waitTime =
     (case updateState StateStopping w c of
        (w1, c1, finalState) \<Rightarrow>
          (case base_stop waitTime w1 of
             (w2, Some err) \<Rightarrow>
               (case updateState finalState w2 c1 of
                  (w3, c3, _) \<Rightarrow> (case onStop w3 c3 of (w4, c4) \<Rightarrow> (w4, c4, Some err)))
           | (w2, None) \<Rightarrow>
               (case updateState StateStopped w2 c1 of
                  (w3, c3, _) \<Rightarrow> (case onStop w3 c3 of (w4, c4) \<Rightarrow> (w4, c4, None)))))"

definition ask_DSPath :: "world \<Rightarrow> world \<times> (error + string)" where
  "ask_DSPath w =
     (w\<lparr>DSPath_results := stl (DSPath_results w), calls := calls w @ [CallDSPath]\<rparr>,
      shd (DSPath_results w))"

definition ask_DeleteExceptDisks :: "world \<Rightarrow> world \<times> error option" where
  "ask_DeleteExceptDisks w =
     (w\<lparr>DeleteExceptDisks_results := stl (DeleteExceptDisks_results w),
        calls := calls w @ [CallDeleteExceptDisks]\<rparr>,
      shd (DeleteExceptDisks_results w))"

definition ask_Unregister :: "world \<Rightarrow> world \<times> error option" where
  "ask_Unregister w =
     (w\<lparr>Unregister_results := stl (Unregister_results w), calls := calls w @ [CallUnregister]\<rparr>,
      shd (Unregister_results w))"

definition ask_DeleteDatastoreFile :: "string \<Rightarrow> world \<Rightarrow> world \<times> error option" where
  "ask_DeleteDatastoreFile dsPath w =
     (w\<lparr>DeleteDatastoreFile_results := stl (DeleteDatastoreFile_results w),
        calls := calls w @ [CallDeleteDatastoreFile dsPath]\<rparr>,
      shd (DeleteDatastoreFile_results w))"

definition ask_Open :: "string \<Rightarrow> world \<Rightarrow> world \<times> (error + nat)" where
  "ask_Open name w =
     (w\<lparr>Open_results := stl (Open_results w), calls := calls w @ [CallOpen name]\<rparr>,
      shd (Open_results w))"

definition ask_Tail :: "int \<Rightarrow> world \<Rightarrow> world \<times> error option" where
  "ask_Tail n w =
     (w\<lparr>Tail_results := stl (Tail_results w), calls := calls w @ [CallTail n]\<rparr>,
      shd (Tail_results w))"

definition cache_Remove :: "string \<Rightarrow> world \<Rightarrow> world" where
  "cache_Remove i w = w\<lparr>Containers := (Containers w)(i := None)\<rparr>"

definition cache_Put :: "Container \<Rightarrow> world \<Rightarrow> world" where
  "cache_Put c w = w\<lparr>Containers := (Containers w)(ID (ExecConfig c) \<mapsto> c)\<rparr>"

text \<open>
  \<^verbatim>\<open>Remove\<close>. The two helpers are the exits the Go function takes more than once:
  \<^verbatim>\<open>c.updateState(existingState); return err\<close>, and the tail that deletes the
  datastore files (whose error is only logged) and evicts the cache entry.
\<close>

definition Remove_revert ::
  "State \<Rightarrow> error \<Rightarrow> world \<Rightarrow> Container \<Rightarrow> world \<times> Container \<times> error option" where
  "Remove_revert existingState err w c =
     (case updateState existingState w c of (w', c', _) \<Rightarrow> (w', c', Some err))"

definition Remove_finish ::
  "Session option \<Rightarrow> string \<Rightarrow> world \<Rightarrow> Container \<Rightarrow> world \<times> Container \<times> error option" where
  "Remove_finish sess dsPath w c =
     (case sess of
        None \<Rightarrow> (w, c, Some NilPointerPanic)
      | Some _ \<Rightarrow>
          (case ask_DeleteDatastoreFile dsPath w of
             (w', _) \<Rightarrow> (cache_Remove (ID (ExecConfig c)) w', c, None)))"

definition Remove :: "world \<Rightarrow> Session option \<Rightarrow> Container \<Rightarrow> world \<times> Container \<times> error option" where
  "Remove w sess c =
     (if vm c = None then (w, c, Some NotFoundError)
      else if state c = StateRunning
      then (w, c, Some (RemovePowerError ''Container is powered on''))
      else
        (case updateState StateRemoving w c of
           (w1, c1, existingState) \<Rightarrow>
             (case ask_DSPath w1 of
                (w2, Inl err) \<Rightarrow>
                  (if err = SoapFault ManagedObjectNotFound
                   then (cache_Remove (ID (ExecConfig c1)) w2, c1, Some NotFoundError)
                   else Remove_revert existingState err w2 c1)
              | (w2, Inr dsPath) \<Rightarrow>
                  (case ask_DeleteExceptDisks w2 of
                     (w3, None) \<Rightarrow> Remove_finish sess dsPath w3 c1
                   | (w3, Some err) \<Rightarrow>
                       (case err of
                          TaskError f \<Rightarrow>
                            (case f of
                               InvalidState \<Rightarrow>
                                 (case ask_Unregister w3 of
                                    (w4, Some err') \<Rightarrow> (w4, c1, Some err')
                                  | (w4, None) \<Rightarrow> Remove_finish sess dsPath w4 c1)
                             | _ \<Rightarrow> Remove_revert existingState err w3 c1)
                        | _ \<Rightarrow> Remove_revert existingState err w3 c1)))))"

text \<open>
  \<^verbatim>\<open>LogReader\<close>; the reader it returns is a number, and a follower is registered only
  while the container is running.
\<close>

definition LogReader ::
  "world \<Rightarrow> Container \<Rightarrow> int \<Rightarrow> bool \<Rightarrow> world \<times> Container \<times> (error + nat)" where
  "LogReader w c tail follow =
     (if vm c = None then (w, c, Inl (Errorf ''vm not set''))
      else
        (case ask_DSPath w of
           (w1, Inl err) \<Rightarrow> (w1, c, Inl err)
         | (w1, Inr path) \<Rightarrow>
             (case ask_Open (path @ ''/output.log'') w1 of
                (w2, Inl err) \<Rightarrow> (w2, c, Inl err)
              | (w2, Inr file) \<Rightarrow>
                  (case (if 0 \<le> tail then ask_Tail tail w2 else (w2, None)) of
                     (w3, Some err) \<Rightarrow> (w3, c, Inl err)
                   | (w3, None) \<Rightarrow>
                       (if follow \<and> state c = StateRunning
                        then (w3, c\<lparr>logFollowers := logFollowers c @ [file]\<rparr>, Inr file)
                        else (w3, c, Inr file))))))"

subsection \<open>Sequences of calls on one container\<close>

text \<open>The calls of \<^verbatim>\<open>container.go\<close> that write a container.\<close>

datatype container_call =
    DoSetState State
  | DoWaitForState State
  | DoRefresh
  | DoRefreshFromHandle Handle
  | DoStart
  | DoStop "int option"
  | DoOnStop
  | DoLogReader int bool
  | DoRemove "Session option"

fun exec_call :: "container_call \<Rightarrow> world \<Rightarrow> Container \<Rightarrow> world \<times> Container" where
  "exec_call (DoSetState s) w c = (case SetState s w c of (w', c', _) \<Rightarrow> (w', c'))"
| "exec_call (DoWaitForState s) w c = (case WaitForState s w c of (w', c', _) \<Rightarrow> (w', c'))"
| "exec_call DoRefresh w c = (case Refresh w c of (w', c', _) \<Rightarrow> (w', c'))"
| "exec_call (DoRefreshFromHandle h) w c = (w, fst (RefreshFromHandle h c))"
| "exec_call DoStart w c = (case start w c of (w', c', _) \<Rightarrow> (w', c'))"
| "exec_call (DoStop waitTime) w c = (case stop w c waitTime of (w', c', _) \<Rightarrow> (w', c'))"
| "exec_call DoOnStop w c = onStop w c"
| "exec_call (DoLogReader tail follow) w c =
     (case LogReader w c tail follow of (w', c', _) \<Rightarrow> (w', c'))"
| "exec_call (DoRemove sess) w c = (case Remove w sess c of (w', c', _) \<Rightarrow> (w', c'))"

text \<open>The two calls a subscriber and a state owner make, and a run of them.\<close>

datatype state_call = CallSetState State | CallWaitForState State

fun run_state_calls :: "state_call list \<Rightarrow> world \<Rightarrow> Container \<Rightarrow> world \<times> Container" where
  "run_state_calls [] w c = (w, c)"
| "run_state_calls (CallSetState t # cs) w c =
     (case SetState t w c of (w', c', _) \<Rightarrow> run_state_calls cs w' c')"
| "run_state_calls (CallWaitForState t # cs) w c =
     (case WaitForState t w c of (w', c', _) \<Rightarrow> run_state_calls cs w' c')"

subsection \<open>Invariants of the subscription map\<close>

text \<open>
  No subscription is pending for the state the container is in.
\<close>

definition no_pending_current :: "Container \<Rightarrow> bool" where
  "no_pending_current c = (newStateEvents c (state c) = None)"

text \<open>
  Channels are well formed: every closed channel has been made, and a registered channel
  has been made, is still open and is registered for one state only.
\<close>

definition registered_once :: "Container \<Rightarrow> State \<Rightarrow> chan \<Rightarrow> bool" where
  "registered_once c s ch = list_all (\<lambda>t. newStateEvents c t \<noteq> Some ch \<or> t = s) all_states"

definition chans_ok :: "world \<Rightarrow> Container \<Rightarrow> bool" where
  "chans_ok w c =
     (list_all (\<lambda>ch. ch < next_chan w) (close_log w) \<and>
      list_all (\<lambda>s. case newStateEvents c s of
                        None \<Rightarrow> True
                      | Some ch \<Rightarrow> ch < next_chan w \<and> \<not> is_closed w ch \<and> registered_once c s ch)
        all_states)"

text \<open>
  The two phases of one subscription, used in the proofs: the channel \<open>ch\<close> is
  registered for \<open>s\<close> and has not been closed; or it has been closed \<open>n\<close> times and
  is registered nowhere.
\<close>

definition pending_on :: "chan \<Rightarrow> State \<Rightarrow> world \<Rightarrow> Container \<Rightarrow> bool" where
  "pending_on ch s w c =
     (newStateEvents c s = Some ch \<and> state c \<noteq> s \<and> ch < next_chan w \<and>
      count_list (close_log w) ch = 0 \<and> (\<forall>t. t \<noteq> s \<longrightarrow> newStateEvents c t \<noteq> Some ch))"

definition fired :: "chan \<Rightarrow> nat \<Rightarrow> world \<Rightarrow> Container \<Rightarrow> bool" where
  "fired ch n w c =
     (ch < next_chan w \<and> count_list (close_log w) ch = n \<and>
      (\<forall>t. newStateEvents c t \<noteq> Some ch))"

section \<open>Commit\<close>

text \<open>
  \<^verbatim>\<open>Commit(ctx, sess, h, waitTime)\<close> works on the handle \<open>h\<close> (a pointer, so the model
  returns the handle as Commit leaves it) and on the cache entry \<open>c\<close> of the handle's ID.
  The cache holds pointers: what \<^verbatim>\<open>c.stop\<close>, \<^verbatim>\<open>c.start\<close> and
  \<^verbatim>\<open>c.RefreshFromHandle\<close> write is visible through the cache, which \<open>cache_store\<close>
  models. A nil \<open>c\<close> (a handle with a VM whose ID is not in the cache) panics where a
  method first dereferences it.
\<close>

definition cache_store :: "string \<Rightarrow> Container \<Rightarrow> world \<Rightarrow> world" where
  "cache_store i c w = w\<lparr>Containers := (Containers w)(i \<mapsto> c)\<rparr>"

definition publishContainerEvent :: "string \<Rightarrow> ContainerEvent \<Rightarrow> world \<Rightarrow> world" where
  "publishContainerEvent i e w = w\<lparr>events := events w @ [(i, e)]\<rparr>"

definition ask_CreateVM :: "call \<Rightarrow> world \<Rightarrow> world \<times> (error + string)" where
  "ask_CreateVM k w =
     (w\<lparr>CreateVM_results := stl (CreateVM_results w), calls := calls w @ [k]\<rparr>,
      shd (CreateVM_results w))"

definition ask_Folders :: "world \<Rightarrow> world \<times> error option" where
  "ask_Folders w =
     (w\<lparr>Folders_results := stl (Folders_results w), calls := calls w @ [CallFolders]\<rparr>,
      shd (Folders_results w))"

definition ask_Reconfigure :: "string \<Rightarrow> VirtualMachineConfigSpec \<Rightarrow> world \<Rightarrow> world \<times> error option" where
  "ask_Reconfigure ref s w =
     (w\<lparr>Reconfigure_results := stl (Reconfigure_results w),
        calls := calls w @ [CallReconfigure ref s]\<rparr>,
      shd (Reconfigure_results w))"

text \<open>
  The creation block. The second test of \<^verbatim>\<open>h.Spec == nil\<close> in the source cannot be
  reached and is left out.
\<close>

definition Commit_create :: "world \<Rightarrow> Session option \<Rightarrow> Handle \<Rightarrow> world \<times> Handle \<times> error option" where
  "Commit_create w sess h =
     (case Spec h of
        None \<Rightarrow> (w, h, Some (Errorf ''a spec must be provided for create operations''))
      | Some sp \<Rightarrow>
          (case sess of
             None \<Rightarrow> (w, h, Some (Errorf ''no session provided for create operations''))
           | Some se \<Rightarrow>
               if Containers w (ID (ExecConfig h)) \<noteq> None
               then (w, h, Some (Errorf ''a container already exists in the cache with this ID''))
               else
                 (case (if IsVC se \<and> VirtualApp_ResourcePool w
                        then ask_CreateVM (CallCreateChildVM sp) w
                        else (case ask_Folders w of
                                (w1, Some err) \<Rightarrow> (w1, Inl err)
                              | (w1, None) \<Rightarrow> ask_CreateVM (CallCreateVM sp) w1)) of
                    (w2, Inl err) \<Rightarrow> (w2, h, Some err)
                  | (w2, Inr ref) \<Rightarrow>
                      (let h1 = h\<lparr>vm := Some ref\<rparr>;
                           c = newContainer (get_base h1);
                           w3 = cache_Put c w2;
                           w4 = publishContainerEvent (ID (ExecConfig c)) ContainerCreated w3
                       in (w4, h1\<lparr>Spec := None\<rparr>, None)))))"

definition powered :: "VirtualMachinePowerState \<Rightarrow> 'a containerBase_scheme \<Rightarrow> bool" where
  "powered p h = (case Runtime h of None \<Rightarrow> False | Some rt \<Rightarrow> PowerState rt = p)"

text \<open>
  The stop block; the boolean is the variable \<^verbatim>\<open>refresh\<close>, which is false once the
  block has refreshed the handle itself.
\<close>

definition Commit_stop ::
  "world \<Rightarrow> Handle \<Rightarrow> int option \<Rightarrow> world \<times> Handle \<times> bool \<times> error option" where
  "Commit_stop w h waitTime =
     (if targetState h = StateStopped then
        (if powered PoweredOff h then (w, h, True, None)
         else
           (case Containers w (ID (ExecConfig h)) of
              None \<Rightarrow> (w, h, True, Some NilPointerPanic)
            | Some c \<Rightarrow>
                (case stop w c waitTime of
                   (w1, c1, Some err) \<Rightarrow> (cache_store (ID (ExecConfig h)) c1 w1, h, True, Some err)
                 | (w1, c1, None) \<Rightarrow>
                     (case ask_updates
                             (publishContainerEvent (ID (ExecConfig h)) ContainerStopped
                                (cache_store (ID (ExecConfig h)) c1 w1)) of
                        (w2, Inl err) \<Rightarrow> (w2, h, True, Some err)
                      | (w2, Inr base) \<Rightarrow>
                          (w2, h\<lparr>Runtime := Runtime base, Config := Config base\<rparr>, False, None)))))
      else (w, h, True, None))"

text \<open>
  One pass through the body of the reconfigure loop: the optional refresh (whose error
  is dropped), the stamp, the call, and what the loop does next.
\<close>

datatype attempt = Applied | Retry | Failed error

definition reconfigure_attempt :: "bool \<Rightarrow> world \<Rightarrow> Handle \<Rightarrow> world \<times> Handle \<times> attempt" where
  "reconfigure_attempt refresh w h =
     (case Spec h of
        None \<Rightarrow> (w, h, Failed NilPointerPanic)
      | Some s \<Rightarrow>
          (case (if refresh
                 then (case ask_updates w of
                         (w1, Inr base) \<Rightarrow> (w1, h\<lparr>Runtime := Runtime base, Config := Config base\<rparr>)
                       | (w1, Inl err) \<Rightarrow> (w1, h))
                 else (w, h)) of
             (w1, h1) \<Rightarrow>
               (case Config h1 of
                  None \<Rightarrow> (w1, h1, Failed NilPointerPanic)
                | Some cf \<Rightarrow>
                    (let s1 = s\<lparr>ChangeVersion := VirtualMachineConfigInfo.ChangeVersion cf\<rparr>
                     in case Runtime h1 of
                          None \<Rightarrow> (w1, h1\<lparr>Spec := Some s1\<rparr>, Failed NilPointerPanic)
                        | Some rt \<Rightarrow>
                            (let s2 = (if PowerState rt = PoweredOn then s1\<lparr>ExtraConfig := None\<rparr>
                                       else s1);
                                 h2 = h1\<lparr>Spec := Some s2\<rparr>
                             in case vm h2 of
                                  None \<Rightarrow> (w1, h2, Failed NilPointerPanic)
                                | Some ref \<Rightarrow>
                                    (case ask_Reconfigure ref s2 w1 of
                                       (w2, None) \<Rightarrow> (w2, h2, Applied)
                                     | (w2, Some err) \<Rightarrow>
                                         if err = TaskError ConcurrentAccess
                                         then (w2, h2, Retry)
                                         else (w2, h2, Failed err)))))))"

text \<open>
  The loop has no bound: it runs for as long as the platform answers with
  \<^verbatim>\<open>ConcurrentAccess\<close>. Not returning is the value \<open>None\<close>.
\<close>

partial_function (option) reconfigure_loop ::
  "bool \<Rightarrow> world \<Rightarrow> Handle \<Rightarrow> (world \<times> Handle \<times> error option) option" where
  "reconfigure_loop refresh w h =
     (case reconfigure_attempt refresh w h of
        (w', h', Applied) \<Rightarrow> Some (w', h', None)
      | (w', h', Failed err) \<Rightarrow> Some (w', h', Some err)
      | (w', h', Retry) \<Rightarrow> reconfigure_loop True w' h')"

definition Commit_reconfigure ::
  "bool \<Rightarrow> world \<Rightarrow> Handle \<Rightarrow> (world \<times> Handle \<times> error option) option" where
  "Commit_reconfigure refresh w h =
     (if Spec h \<noteq> None then
        (if Runtime h = None then Some (w, h, None)
         else reconfigure_loop refresh w h)
      else Some (w, h, None))"

definition Commit_start :: "world \<Rightarrow> Handle \<Rightarrow> world \<times> error option" where
  "Commit_start w h =
     (if targetState h = StateRunning then
        (if powered PoweredOn h then (w, None)
         else
           (case Containers w (ID (ExecConfig h)) of
              None \<Rightarrow> (w, Some NilPointerPanic)
            | Some c \<Rightarrow>
                (case start w c of
                   (w1, c1, Some err) \<Rightarrow> (cache_store (ID (ExecConfig h)) c1 w1, Some err)
                 | (w1, c1, None) \<Rightarrow>
                     (publishContainerEvent (ID (ExecConfig h)) ContainerStarted
                        (cache_store (ID (ExecConfig h)) c1 w1), None))))
      else (w, None))"

text \<open>
  The deferred \<^verbatim>\<open>c.RefreshFromHandle(ctx, h)\<close> of a Commit that is not a creation; it
  runs on every return after the \<^verbatim>\<open>defer\<close> statement, and a panic in it replaces the
  result.
\<close>

definition Commit_deferred :: "world \<Rightarrow> Handle \<Rightarrow> error option \<Rightarrow> world \<times> error option" where
  "Commit_deferred w h r =
     (case Containers w (ID (ExecConfig h)) of
        None \<Rightarrow> (w, Some NilPointerPanic)
      | Some c \<Rightarrow>
          (case RefreshFromHandle h c of
             (c', None) \<Rightarrow> (cache_store (ID (ExecConfig h)) c' w, r)
           | (c', Some p) \<Rightarrow> (cache_store (ID (ExecConfig h)) c' w, Some p)))"

definition Commit_finish :: "bool \<Rightarrow> world \<Rightarrow> Handle \<Rightarrow> world \<times> Handle \<times> error option" where
  "Commit_finish creation w h =
     (case Commit_start w h of
        (w1, r) \<Rightarrow>
          if creation then (w1, h, r)
          else (case Commit_deferred w1 h r of (w2, r') \<Rightarrow> (w2, h, r')))"

definition Commit ::
  "world \<Rightarrow> Session option \<Rightarrow> Handle \<Rightarrow> int option \<Rightarrow> (world \<times> Handle \<times> error option) option" where
  "Commit w sess h waitTime =
     (let creation = (vm h = None)
      in case (if creation then Commit_create w sess h else (w, h, None)) of
           (w1, h1, Some err) \<Rightarrow> Some (w1, h1, Some err)
         | (w1, h1, None) \<Rightarrow>
             (case Commit_stop w1 h1 waitTime of
                (w2, h2, refresh, Some err) \<Rightarrow> Some (w2, h2, Some err)
              | (w2, h2, refresh, None) \<Rightarrow>
                  (case Commit_reconfigure refresh w2 h2 of
                     None \<Rightarrow> None
                   | Some (w3, h3, Some err) \<Rightarrow> Some (w3, h3, Some err)
                   | Some (w3, h3, None) \<Rightarrow> Some (Commit_finish creation w3 h3))))"

text \<open>What a trace holds: the calls made since an earlier world, and the specifications
  sent to \<^verbatim>\<open>Reconfigure\<close>.\<close>

definition new_calls :: "world \<Rightarrow> world \<Rightarrow> call list" where
  "new_calls w w' = drop (length (calls w)) (calls w')"

fun reconfigure_specs :: "call list \<Rightarrow> VirtualMachineConfigSpec list" where
  "reconfigure_specs [] = []"
| "reconfigure_specs (CallReconfigure ref s # cs) = s # reconfigure_specs cs"
| "reconfigure_specs (_ # cs) = reconfigure_specs cs"

text \<open>
  The change-version known at each of \<open>k\<close> successive attempts, in the words of the
  specification: the version of the handle's configuration, replaced by the refreshed one
  whenever a refresh succeeds. The first attempt refreshes only when \<open>refresh\<close> is set,
  every retry does.
\<close>

fun known_versions ::
  "nat \<Rightarrow> bool \<Rightarrow> string \<Rightarrow> (error + containerBase) stream \<Rightarrow> string list" where
  "known_versions 0 refresh v us = []"
| "known_versions (Suc k) refresh v us =
     (let v' = (if refresh
                then (case shd us of
                        Inr b \<Rightarrow> (case Config b of
                                     Some cf \<Rightarrow> VirtualMachineConfigInfo.ChangeVersion cf
                                   | None \<Rightarrow> v)
                      | Inl _ \<Rightarrow> v)
                else v)
      in v' # known_versions k True v' (if refresh then stl us else us))"

definition complete_update :: "error + containerBase \<Rightarrow> bool" where
  "complete_update u = (case u of Inl _ \<Rightarrow> True | Inr b \<Rightarrow> Config b \<noteq> None \<and> Runtime b \<noteq> None)"

text \<open>Auxiliary notions for the proofs about Commit.\<close>

definition attempt_result :: "error option \<Rightarrow> attempt" where
  "attempt_result r =
     (case r of None \<Rightarrow> Applied
      | Some err \<Rightarrow> if err = TaskError ConcurrentAccess then Retry else Failed err)"

definition quiet_extension :: "world \<Rightarrow> world \<Rightarrow> bool" where
  "quiet_extension w w' = (\<exists>cs. calls w' = calls w @ cs \<and> reconfigure_specs cs = [])"

section \<open>Network (package network): endpoints, ports and aliases\<close>

text \<open>
  An \<^verbatim>\<open>Endpoint\<close> holds two Go maps. A map is a reference: copying the struct copies
  the reference, not the map. The model therefore keeps the endpoints and both kinds of
  maps in a store, and an endpoint holds the addresses of its maps. The container and the
  scope of an endpoint are only read here, through \<^verbatim>\<open>Name()\<close>.
\<close>

type_synonym addr = nat

type_synonym Port = string

record NetContainer =
  name :: string

record Scope =
  name :: string

text \<open>The Go type is \<^verbatim>\<open>alias\<close>, a reserved word here.\<close>

record Alias =
  Name :: string
  Container :: string
  ep :: "addr option"

record Endpoint =
  container :: NetContainer
  scope :: Scope
  ip :: "nat list"
  static :: bool
  ports :: addr
  aliases :: addr

record store =
  endpoints :: "addr \<Rightarrow> Endpoint"
  port_maps :: "addr \<Rightarrow> Port set"
  alias_maps :: "addr \<Rightarrow> (string \<rightharpoonup> Alias list)"
  next_addr :: addr

definition badAlias :: Alias where
  "badAlias = \<lparr>Name = [], Container = [], ep = None\<rparr>"

text \<open>Reading a Go map at a missing key gives the zero value, here the nil slice.\<close>

definition lookup_aliases :: "(string \<rightharpoonup> Alias list) \<Rightarrow> string \<Rightarrow> Alias list" where
  "lookup_aliases m con = (case m con of None \<Rightarrow> [] | Some as \<Rightarrow> as)"

text \<open>
  Modelled from the spec: \<^verbatim>\<open>ip.IsUnspecifiedIP\<close> of \<^verbatim>\<open>pkg/ip\<close> is not among the
  sources; an address is unspecified when it is empty or all zero.
\<close>

definition IsUnspecifiedIP :: "nat list \<Rightarrow> bool" where
  "IsUnspecifiedIP a = (a = [] \<or> list_all (\<lambda>b. b = 0) a)"

definition newEndpoint :: "store \<Rightarrow> NetContainer \<Rightarrow> Scope \<Rightarrow> nat list option \<Rightarrow> store \<times> addr" where
  "newEndpoint st con sc eip =
     (let pm = next_addr st; am = Suc (next_addr st); x = Suc (Suc (next_addr st));
          e = \<lparr>container = con, scope = sc, ip = [0, 0, 0, 0], static = False,
               ports = pm, aliases = am\<rparr>;
          e' = (case eip of
                  None \<Rightarrow> e
                | Some a \<Rightarrow> if \<not> IsUnspecifiedIP a then e\<lparr>ip := a, static := True\<rparr> else e)
      in (st\<lparr>endpoints := (endpoints st)(x := e'),
             port_maps := (port_maps st)(pm := {}),
             alias_maps := (alias_maps st)(am := Map.empty),
             next_addr := Suc (Suc (Suc (next_addr st)))\<rparr>, x))"

definition getAliases :: "store \<Rightarrow> addr \<Rightarrow> string \<Rightarrow> Alias list" where
  "getAliases st x con =
     (let e = endpoints st x;
          con' = (if con = [] then NetContainer.name (container e) else con)
      in lookup_aliases (alias_maps st (aliases e)) con')"



definition addPort :: "store \<Rightarrow> addr \<Rightarrow> Port \<Rightarrow> store \<times> error option" where
  "addPort st x p =
     (let e = endpoints st x
      in if p \<in> port_maps st (ports e)
         then (st, Some (Errorf (''port '' @ p @ '' already exposed'')))
         else (st\<lparr>port_maps := (port_maps st)(ports e := insert p (port_maps st (ports e)))\<rparr>,
               None))"

text \<open>\<^verbatim>\<open>Ports()\<close> lists the keys of the port map in no particular order: a set.\<close>

definition Ports :: "store \<Rightarrow> addr \<Rightarrow> Port set" where
  "Ports st x = port_maps st (ports (endpoints st x))"

fun find_alias :: "string \<Rightarrow> Alias list \<Rightarrow> Alias option" where
  "find_alias n [] = None"
| "find_alias n (al # as) = (if Name al = n then Some al else find_alias n as)"

definition addAlias :: "store \<Rightarrow> addr \<Rightarrow> string \<Rightarrow> string \<Rightarrow> store \<times> Alias \<times> bool" where
  "addAlias st x con a =
     (if a = [] then (st, badAlias, False)
      else
        (let e = endpoints st x;
             con' = (if con = [] then NetContainer.name (container e) else con);
             as = lookup_aliases (alias_maps st (aliases e)) con'
         in case find_alias a as of
              Some al \<Rightarrow> (st, al, True)
            | None \<Rightarrow>
                (let na = \<lparr>Name = a, Container = con', ep = Some x\<rparr>
                 in (st\<lparr>alias_maps := (alias_maps st)
                          (aliases e := (alias_maps st (aliases e))(con' \<mapsto> as @ [na]))\<rparr>,
                     na, False))))"

text \<open>
  \<^verbatim>\<open>copy\<close>: a new endpoint with the fields of \<open>e\<close>, then a new port map filled with
  the ports of \<open>e\<close>. The field \<^verbatim>\<open>aliases\<close> is copied with the struct and still
  refers to the map of \<open>e\<close>.
\<close>

definition copy :: "store \<Rightarrow> addr \<Rightarrow> store \<times> addr" where
  "copy st x =
     (let e = endpoints st x; pm = next_addr st; other = Suc (next_addr st)
      in (st\<lparr>endpoints := (endpoints st)(other := e\<lparr>ports := pm\<rparr>),
             port_maps := (port_maps st)(pm := port_maps st (ports e)),
             next_addr := Suc (Suc (next_addr st))\<rparr>, other))"

text \<open>An endpoint of a store: it and its maps have been allocated.\<close>

definition allocated :: "store \<Rightarrow> addr \<Rightarrow> bool" where
  "allocated st x =
     (x < next_addr st \<and> ports (endpoints st x) < next_addr st \<and>
      aliases (endpoints st x) < next_addr st)"




section \<open>Docker personality (package backends): host ports\<close>

text \<open>
  \<^verbatim>\<open>nat.PortMap\<close> is \<^verbatim>\<open>map[nat.Port][]nat.PortBinding\<close>; a \<^verbatim>\<open>nat.PortBinding\<close> is
  a struct of two strings, held in the slice by value. Go visits a map in no fixed order:
  the model takes the port map as the list of its entries in the order the loop visits
  them.
\<close>

record PortBinding =
  HostIP :: string
  HostPort :: string

type_synonym PortMap = "(string \<times> PortBinding list) list"

record portMapping =
  intHostPort :: int
  strHostPort :: string
  portProto :: string

record HostConfig =
  PortBindings :: PortMap

record VicContainer =
  ContainerID :: string
  HostConfig :: HostConfig

record EndpointConfig =
  Address :: string

text \<open>
  The library functions the code calls (\<^verbatim>\<open>nat.SplitProtoPort\<close>, \<^verbatim>\<open>nat.NewPort\<close>,
  \<^verbatim>\<open>strconv.Atoi\<close>, \<^verbatim>\<open>strconv.Itoa\<close>, \<^verbatim>\<open>net.ParseIP\<close> followed by
  \<^verbatim>\<open>String()\<close>) are not part of the repository; they are parameters.
\<close>

record library =
  SplitProtoPort :: "string \<Rightarrow> string \<times> string"
  NewPort :: "string \<Rightarrow> string \<Rightarrow> error + string"
  Atoi :: "string \<Rightarrow> error + int"
  Itoa :: "int \<Rightarrow> string"
  ParseIP :: "string \<Rightarrow> string option"

datatype port_call =
    CallRequestPort string
  | CallMapPort int string string
  | CallUnmapPort int string
  | CallIsRunning string

text \<open>
  The state the functions share: the port allocator, the port mapper and the port layer
  answer from streams of results; \<^verbatim>\<open>containerByPort\<close> is the ownership index, keyed by
  host port; \<^verbatim>\<open>ContainerCache\<close> is the cache of the personality.
\<close>

record engine =
  RequestPort_results :: "(error + int) stream"
  MapPort_results :: "error option stream"
  UnmapPort_results :: "error option stream"
  IsRunning_results :: "(error + bool) stream"
  containerByPort :: "string \<rightharpoonup> string"
  ContainerCache :: "string \<rightharpoonup> VicContainer"
  port_calls :: "port_call list"

definition requestHostPort :: "string \<Rightarrow> engine \<Rightarrow> engine \<times> (error + int)" where
  "requestHostPort proto w =
     (w\<lparr>RequestPort_results := stl (RequestPort_results w),
        port_calls := port_calls w @ [CallRequestPort proto]\<rparr>,
      shd (RequestPort_results w))"

definition ask_MapPort :: "portMapping \<Rightarrow> string \<Rightarrow> engine \<Rightarrow> engine \<times> error option" where
  "ask_MapPort p containerIP w =
     (w\<lparr>MapPort_results := stl (MapPort_results w),
        port_calls := port_calls w @ [CallMapPort (intHostPort p) (portProto p) containerIP]\<rparr>,
      shd (MapPort_results w))"

definition ask_UnmapPort :: "portMapping \<Rightarrow> engine \<Rightarrow> engine \<times> error option" where
  "ask_UnmapPort p w =
     (w\<lparr>UnmapPort_results := stl (UnmapPort_results w),
        port_calls := port_calls w @ [CallUnmapPort (intHostPort p) (portProto p)]\<rparr>,
      shd (UnmapPort_results w))"

definition ask_IsRunning :: "VicContainer \<Rightarrow> engine \<Rightarrow> engine \<times> (error + bool)" where
  "ask_IsRunning cc w =
     (w\<lparr>IsRunning_results := stl (IsRunning_results w),
        port_calls := port_calls w @ [CallIsRunning (ContainerID cc)]\<rparr>,
      shd (IsRunning_results w))"

text \<open>
  The inner loop of \<^verbatim>\<open>unrollPortMap\<close>, \<^verbatim>\<open>for _, p := range pb\<close>. The loop variable
  \<open>p\<close> is a copy of the slice element. The assignment
  \<^verbatim>\<open>p.HostPort = strconv.Itoa(hostPort)\<close> writes that copy, which nothing reads
  afterwards; the slice, and with it the caller's port map, is not written. The model
  therefore has no port map to return: the caller keeps the one it passed.
\<close>

fun unroll_bindings ::
  "library \<Rightarrow> string \<Rightarrow> string \<Rightarrow> PortBinding list \<Rightarrow> engine \<Rightarrow> engine \<times> (error + portMapping list)" where
  "unroll_bindings L proto nport [] w = (w, Inr [])"
| "unroll_bindings L proto nport (p # pb) w =
     (case (if HostPort p = [] then requestHostPort proto w else (w, Atoi L (HostPort p))) of
        (w1, Inl err) \<Rightarrow> (w1, Inl err)
      | (w1, Inr hostPort) \<Rightarrow>
          (case unroll_bindings L proto nport pb w1 of
             (w2, Inl err) \<Rightarrow> (w2, Inl err)
           | (w2, Inr ms) \<Rightarrow>
               (w2, Inr (\<lparr>intHostPort = hostPort, strHostPort = Itoa L hostPort,
                          portProto = nport\<rparr> # ms))))"

fun unrollPortMap :: "library \<Rightarrow> PortMap \<Rightarrow> engine \<Rightarrow> engine \<times> (error + portMapping list)" where
  "unrollPortMap L [] w = (w, Inr [])"
| "unrollPortMap L ((i, pb) # rest) w =
     (case SplitProtoPort L i of
        (proto, port) \<Rightarrow>
          (case NewPort L proto port of
             Inl err \<Rightarrow> (w, Inl err)
           | Inr nport \<Rightarrow>
               (case unroll_bindings L proto nport pb w of
                  (w1, Inl err) \<Rightarrow> (w1, Inl err)
                | (w1, Inr ms) \<Rightarrow>
                    (case unrollPortMap L rest w1 of
                       (w2, Inl err) \<Rightarrow> (w2, Inl err)
                     | (w2, Inr ms') \<Rightarrow> (w2, Inr (ms @ ms'))))))"

fun mapPorts_loop :: "string \<Rightarrow> string \<Rightarrow> portMapping list \<Rightarrow> engine \<Rightarrow> engine \<times> error option" where
  "mapPorts_loop containerIP containerID [] w = (w, None)"
| "mapPorts_loop containerIP containerID (p # ps) w =
     (case ask_MapPort p containerIP w of
        (w1, Some err) \<Rightarrow> (w1, Some err)
      | (w1, None) \<Rightarrow>
          mapPorts_loop containerIP containerID ps
            (w1\<lparr>containerByPort := (containerByPort w1)(strHostPort p \<mapsto> containerID)\<rparr>))"

definition mapPorts ::
  "library \<Rightarrow> HostConfig \<Rightarrow> EndpointConfig option \<Rightarrow> string \<Rightarrow> engine \<Rightarrow> engine \<times> error option" where
  "mapPorts L hostconfig endpoint containerID w =
     (if PortBindings hostconfig = [] then (w, None)
      else
        (case endpoint of
           None \<Rightarrow> (w, Some (Errorf ''invalid endpoint''))
         | Some e \<Rightarrow>
             (case ParseIP L (Address e) of
                None \<Rightarrow> (w, Some (Errorf (''invalid endpoint address '' @ Address e)))
              | Some containerIP \<Rightarrow>
                  (case unrollPortMap L (PortBindings hostconfig) w of
                     (w1, Inl err) \<Rightarrow> (w1, Some err)
                   | (w1, Inr portMap) \<Rightarrow> mapPorts_loop containerIP containerID portMap w1))))"

fun unmapPorts_loop :: "portMapping list \<Rightarrow> engine \<Rightarrow> engine \<times> error option" where
  "unmapPorts_loop [] w = (w, None)"
| "unmapPorts_loop (p # ps) w =
     (case containerByPort w (strHostPort p) of
        None \<Rightarrow> unmapPorts_loop ps w
      | Some _ \<Rightarrow>
          (case ask_UnmapPort p w of
             (w1, Some err) \<Rightarrow> (w1, Some err)
           | (w1, None) \<Rightarrow>
               unmapPorts_loop ps
                 (w1\<lparr>containerByPort := (containerByPort w1)(strHostPort p := None)\<rparr>)))"

definition unmapPorts :: "library \<Rightarrow> HostConfig \<Rightarrow> engine \<Rightarrow> engine \<times> error option" where
  "unmapPorts L hostconfig w =
     (if PortBindings hostconfig = [] then (w, None)
      else
        (case unrollPortMap L (PortBindings hostconfig) w of
           (w1, Inl err) \<Rightarrow> (w1, Some err)
         | (w1, Inr portMap) \<Rightarrow> unmapPorts_loop portMap w1))"

text \<open>
  \<^verbatim>\<open>%q\<close> in a format string puts its argument in double quotes (and escapes
  characters that a container ID does not have).
\<close>

definition quoted :: "string \<Rightarrow> string" where
  "quoted s = CHR 0x22 # s @ [CHR 0x22]"

text \<open>
  \<^verbatim>\<open>cleanupPortBindings\<close>: the body of the inner loop for one requested binding, the
  inner loop, and the loop over the entries of the port map. An error ends the call.
\<close>

definition cleanup_step :: "library \<Rightarrow> PortBinding \<Rightarrow> engine \<Rightarrow> engine \<times> error option" where
  "cleanup_step L hostPort w =
     (let hPort = HostPort hostPort
      in case containerByPort w hPort of
           None \<Rightarrow> (w, None)
         | Some mappedCtr \<Rightarrow>
             (case ContainerCache w mappedCtr of
                None \<Rightarrow> (w, Some (Errorf (''Unable to find container '' @ quoted mappedCtr @
                                         '' in the cache, unable to get power state'')))
              | Some cc \<Rightarrow>
                  (case ask_IsRunning cc w of
                     (w1, Inl err) \<Rightarrow>
                       (w1, Some (Wrapped (''Failed to get container '' @ quoted mappedCtr @
                                           '' power state'') err))
                   | (w1, Inr running) \<Rightarrow>
                       if running then (w1, None)
                       else
                         (case unmapPorts L (HostConfig cc) w1 of
                            (w2, Some err) \<Rightarrow>
                              (w2, Some (Wrapped (''Failed to unmap host port '' @ hPort @
                                                  '' for container '' @ quoted mappedCtr) err))
                          | (w2, None) \<Rightarrow> (w2, None)))))"

fun cleanup_hostPorts :: "library \<Rightarrow> PortBinding list \<Rightarrow> engine \<Rightarrow> engine \<times> error option" where
  "cleanup_hostPorts L [] w = (w, None)"
| "cleanup_hostPorts L (hostPort # hostPorts) w =
     (case cleanup_step L hostPort w of
        (w1, Some err) \<Rightarrow> (w1, Some err)
      | (w1, None) \<Rightarrow> cleanup_hostPorts L hostPorts w1)"

fun cleanup_entries :: "library \<Rightarrow> PortMap \<Rightarrow> engine \<Rightarrow> engine \<times> error option" where
  "cleanup_entries L [] w = (w, None)"
| "cleanup_entries L ((ctrPort, hostPorts) # rest) w =
     (case cleanup_hostPorts L hostPorts w of
        (w1, Some err) \<Rightarrow> (w1, Some err)
      | (w1, None) \<Rightarrow> cleanup_entries L rest w1)"

definition cleanupPortBindings :: "library \<Rightarrow> VicContainer \<Rightarrow> engine \<Rightarrow> engine \<times> error option" where
  "cleanupPortBindings L vc w = cleanup_entries L (PortBindings (HostConfig vc)) w"

text \<open>The requested bindings of a port map, in the order the loops visit them.\<close>

definition requested :: "PortMap \<Rightarrow> PortBinding list" where
  "requested pm = concat (map snd pm)"


text \<open>A port map in which every binding names its host port.\<close>

definition explicit :: "PortMap \<Rightarrow> bool" where
  "explicit pm = list_all (\<lambda>b. HostPort b \<noteq> []) (requested pm)"

section \<open>Example worlds\<close>

text \<open>A platform on which every call succeeds, and a container to run the calls on.\<close>

definition example_base :: containerBase where
  "example_base =
     \<lparr>ExecConfig = \<lparr>ID = ''c1'', Sessions = [(''c1'', ''true'')]\<rparr>,
      Config = Some \<lparr>VirtualMachineConfigInfo.ChangeVersion = ''v1''\<rparr>,
      Runtime = Some \<lparr>PowerState = PoweredOn\<rparr>,
      vm = Some ''vm-1''\<rparr>"

definition calm_world :: world where
  "calm_world =
     \<lparr>base_start_results = sconst None,
      base_stop_results = sconst None,
      updates_results = sconst (Inr example_base),
      Reconfigure_results = sconst None,
      CreateVM_results = sconst (Inr ''vm-1''),
      Folders_results = sconst None,
      DSPath_results = sconst (Inr ''ds/c1''),
      DeleteExceptDisks_results = sconst None,
      Unregister_results = sconst None,
      DeleteDatastoreFile_results = sconst None,
      Open_results = sconst (Inr 0),
      Tail_results = sconst None,
      calls = [],
      next_chan = 1,
      close_log = [closedEventChannel],
      closed_followers = [],
      Containers = Map.empty,
      events = [],
      VirtualApp_ResourcePool = False\<rparr>"

definition running_container :: Container where
  "running_container = newContainer example_base"

definition failing_world :: world where
  "failing_world =
     calm_world\<lparr>base_start_results := sconst (Some (TaskError (OtherFault ''power''))),
       base_stop_results := sconst (Some (TaskError (OtherFault ''power'')))\<rparr>"

text \<open>A container that is running while one subscriber waits for it to stop.\<close>

definition waiting_container :: Container where
  "waiting_container = fst (snd (WaitForState StateStopped calm_world running_container))"

text \<open>A handle with a pending specification, and a platform that reports one
  concurrent modification before it accepts the reconfigure.\<close>

definition versioned_base :: "string \<Rightarrow> containerBase" where
  "versioned_base v =
     example_base\<lparr>Config := Some \<lparr>VirtualMachineConfigInfo.ChangeVersion = v\<rparr>,
       Runtime := Some \<lparr>PowerState = PoweredOff\<rparr>\<rparr>"

definition example_spec :: VirtualMachineConfigSpec where
  "example_spec = \<lparr>ChangeVersion = [], ExtraConfig = Some [(''guestinfo.key'', ''value'')],
     Payload = [''memoryMB=2048'']\<rparr>"

definition example_handle :: Handle where
  "example_handle =
     \<lparr>ExecConfig = ExecConfig example_base,
      Config = Some \<lparr>VirtualMachineConfigInfo.ChangeVersion = ''v1''\<rparr>,
      Runtime = Some \<lparr>PowerState = PoweredOff\<rparr>,
      vm = Some ''vm-1'',
      Spec = Some example_spec,
      targetState = StateRunning\<rparr>"

definition contended_world :: world where
  "contended_world =
     calm_world\<lparr>Reconfigure_results := Some (TaskError ConcurrentAccess) ## None ## sconst None,
       updates_results := Inr (versioned_base ''v2'') ## Inr (versioned_base ''v3'') ##
         sconst (Inr (versioned_base ''v4'')),
       Containers := [''c1'' \<mapsto> newContainer (versioned_base ''v1'')]\<rparr>"

definition creation_handle :: Handle where
  "creation_handle = example_handle\<lparr>vm := None, Runtime := None, Config := None\<rparr>"

text \<open>A store with the endpoint of container \<^verbatim>\<open>c1\<close> on the scope
  \<^verbatim>\<open>bridge\<close>, and aliases added to it.\<close>

definition bridge_store :: store where
  "bridge_store =
     \<lparr>endpoints = (\<lambda>_. \<lparr>container = \<lparr>NetContainer.name = []\<rparr>, scope = \<lparr>Scope.name = []\<rparr>, ip = [],
                           static = False, ports = 0, aliases = 0\<rparr>),
      port_maps = (\<lambda>_. {}),
      alias_maps = (\<lambda>_. Map.empty),
      next_addr = 0\<rparr>"

definition c1_store :: store where
  "c1_store = fst (newEndpoint bridge_store \<lparr>NetContainer.name = ''c1''\<rparr> \<lparr>Scope.name = ''bridge''\<rparr> None)"

definition c1_endpoint :: addr where
  "c1_endpoint = snd (newEndpoint bridge_store \<lparr>NetContainer.name = ''c1''\<rparr> \<lparr>Scope.name = ''bridge''\<rparr> None)"






definition c1_with_port :: store where
  "c1_with_port = fst (addPort c1_store c1_endpoint ''80/tcp'')"

text \<open>
  An instance of the library for the examples: decimal numbers, \<^verbatim>\<open>port/proto\<close>
  strings that name one port, and addresses taken as they are. Then a port allocator that
  hands out 32768, 32769 and 32770, and containers with their bindings.
\<close>

definition digit_char :: "nat \<Rightarrow> char" where
  "digit_char d = ''0123456789'' ! d"

fun nat_digits :: "nat \<Rightarrow> string" where
  "nat_digits n = (if n < 10 then [digit_char n] else nat_digits (n div 10) @ [digit_char (n mod 10)])"

declare nat_digits.simps [simp del]

definition decimal :: "int \<Rightarrow> string" where
  "decimal i = (if i < 0 then CHR ''-'' # nat_digits (nat (- i)) else nat_digits (nat i))"

definition digit_value :: "char \<Rightarrow> nat option" where
  "digit_value c = map_of (zip ''0123456789'' [0, 1, 2, 3, 4, 5, 6, 7, 8, 9]) c"

fun parse_digits :: "nat \<Rightarrow> string \<Rightarrow> nat option" where
  "parse_digits acc [] = Some acc"
| "parse_digits acc (c # cs) =
     (case digit_value c of None \<Rightarrow> None | Some d \<Rightarrow> parse_digits (10 * acc + d) cs)"

definition parse_decimal :: "string \<Rightarrow> error + int" where
  "parse_decimal s =
     (let (neg, ds) = (case s of
                         c # cs \<Rightarrow> if c = CHR ''-'' then (True, cs)
                                   else if c = CHR ''+'' then (False, cs) else (False, s)
                       | [] \<Rightarrow> (False, s))
      in if ds = [] then Inl (Errorf ''invalid syntax'')
         else (case parse_digits 0 ds of
                 None \<Rightarrow> Inl (Errorf ''invalid syntax'')
               | Some n \<Rightarrow> Inr (if neg then - int n else int n)))"

fun split_slash :: "string \<Rightarrow> string list" where
  "split_slash [] = [[]]"
| "split_slash (c # cs) =
     (if c = CHR ''/'' then [] # split_slash cs
      else (case split_slash cs of p # ps \<Rightarrow> (c # p) # ps | [] \<Rightarrow> [[c]]))"

definition split_proto_port :: "string \<Rightarrow> string \<times> string" where
  "split_proto_port rawPort =
     (case split_slash rawPort of
        [] \<Rightarrow> ([], [])
      | [p] \<Rightarrow> if p = [] then ([], []) else (''tcp'', rawPort)
      | p # q # _ \<Rightarrow> if p = [] then ([], []) else if q = [] then (''tcp'', p) else (q, p))"

definition single_port :: "string \<Rightarrow> string \<Rightarrow> error + string" where
  "single_port proto port =
     (case parse_decimal port of
        Inl err \<Rightarrow> Inl err
      | Inr n \<Rightarrow> if 0 \<le> n \<and> n \<le> 65535 then Inr (decimal n @ ''/'' @ proto)
                 else Inl (Errorf ''invalid port''))"

definition example_library :: library where
  "example_library =
     \<lparr>SplitProtoPort = split_proto_port, NewPort = single_port, Atoi = parse_decimal,
      Itoa = decimal, ParseIP = (\<lambda>s. if s = [] then None else Some s)\<rparr>"

definition port_engine :: engine where
  "port_engine =
     \<lparr>RequestPort_results = Inr 32768 ## Inr 32769 ## Inr 32770 ##
        sconst (Inl (Errorf ''all ports are allocated'')),
      MapPort_results = sconst None,
      UnmapPort_results = sconst None,
      IsRunning_results = sconst (Inr False),
      containerByPort = Map.empty,
      ContainerCache = Map.empty,
      port_calls = []\<rparr>"

definition binding :: "string \<Rightarrow> PortBinding" where
  "binding hp = \<lparr>HostIP = [], HostPort = hp\<rparr>"

definition unspecified_bindings :: PortMap where
  "unspecified_bindings = [(''80/tcp'', [binding []])]"

definition unspecified_config :: HostConfig where
  "unspecified_config = \<lparr>PortBindings = unspecified_bindings\<rparr>"

definition mapped_engine :: engine where
  "mapped_engine =
     fst (mapPorts example_library unspecified_config (Some \<lparr>Address = ''172.16.0.2''\<rparr>) ''c1''
            port_engine)"

definition c2_container :: VicContainer where
  "c2_container =
     \<lparr>ContainerID = ''c2'', HostConfig = \<lparr>PortBindings = [(''80/tcp'', [binding ''8083''])]\<rparr>\<rparr>"

definition stale_engine :: engine where
  "stale_engine =
     port_engine\<lparr>containerByPort := [''8083'' \<mapsto> ''c2''],
       ContainerCache := [''c2'' \<mapsto> c2_container]\<rparr>"

definition running_engine :: engine where
  "running_engine = stale_engine\<lparr>IsRunning_results := sconst (Inr True)\<rparr>"

definition c3_container :: VicContainer where
  "c3_container =
     \<lparr>ContainerID = ''c3'',
      HostConfig = \<lparr>PortBindings = [(''80/tcp'', [binding ''8083'', binding ''8084''])]\<rparr>\<rparr>"

definition c4_container :: VicContainer where
  "c4_container =
     \<lparr>ContainerID = ''c4'', HostConfig = \<lparr>PortBindings = [(''81/tcp'', [binding ''8084''])]\<rparr>\<rparr>"

definition orphan_engine :: engine where
  "orphan_engine =
     port_engine\<lparr>containerByPort := [''8083'' \<mapsto> ''gone'', ''8084'' \<mapsto> ''c4''],
       ContainerCache := [''c4'' \<mapsto> c4_container]\<rparr>"

text \<open>
  Container \<^verbatim>\<open>c2\<close> runs and owns host port 8083. Container \<^verbatim>\<open>c5\<close> asks for
  8084 and 8083; its start (\<^verbatim>\<open>cleanupPortBindings\<close>, then \<^verbatim>\<open>mapPorts\<close>) maps
  8084 and fails on 8083, which is in use. \<^verbatim>\<open>containerStart\<close> returns on that error
  before it registers the deferred \<^verbatim>\<open>unmapPorts\<close>, so 8084 stays owned by \<^verbatim>\<open>c5\<close>,
  which is not running.
\<close>

definition c5_container :: VicContainer where
  "c5_container =
     \<lparr>ContainerID = ''c5'',
      HostConfig = \<lparr>PortBindings = [(''80/tcp'', [binding ''8084'', binding ''8083''])]\<rparr>\<rparr>"

definition shared_port_engine :: engine where
  "shared_port_engine =
     port_engine\<lparr>containerByPort := [''8083'' \<mapsto> ''c2''],
       ContainerCache := [''c2'' \<mapsto> c2_container, ''c5'' \<mapsto> c5_container],
       IsRunning_results := Inr True ## Inr True ## Inr False ## sconst (Inr False),
       MapPort_results := None ## Some (Errorf ''port is already allocated'') ## sconst None\<rparr>"

definition half_started_engine :: engine where
  "half_started_engine =
     fst (mapPorts example_library (HostConfig c5_container) (Some \<lparr>Address = ''172.16.0.5''\<rparr>)
            ''c5'' (fst (cleanupPortBindings example_library c5_container shared_port_engine)))"

definition explicit_config :: HostConfig where
  "explicit_config = \<lparr>PortBindings = [(''80/tcp'', [binding ''8083''])]\<rparr>"

section \<open>Properties of the container state machine\<close>

lemma all_states_UNIV: "set all_states = UNIV"
proof -
  have "s \<in> set all_states" for s
    by (cases s) (simp_all add: all_states_def)
  then show ?thesis by auto
qed

lemma updateState_state [simp]: "state (fst (snd (updateState s w c))) = s"
  by (simp add: updateState_def Let_def split: option.splits)

lemma updateState_prev [simp]: "snd (snd (updateState s w c)) = state c"
  by (simp add: updateState_def Let_def split: option.splits)

lemma updateState_results [simp]:
  "base_start_results (fst (updateState s w c)) = base_start_results w"
  "base_stop_results (fst (updateState s w c)) = base_stop_results w"
  by (simp_all add: updateState_def Let_def close_chan_def split: option.splits)

lemma updateState_np [simp]:
  "no_pending_current c \<Longrightarrow> no_pending_current (fst (snd (updateState s w c)))"
  by (auto simp add: updateState_def Let_def no_pending_current_def split: option.splits if_splits)

lemma updateState_same: "updateState (state c) w c = (w, c, state c)"
  by (simp add: updateState_def)

lemma WaitForState_np [simp]:
  "no_pending_current c \<Longrightarrow> no_pending_current (fst (snd (WaitForState s w c)))"
  by (auto simp add: WaitForState_def Let_def no_pending_current_def make_chan_def split: option.splits if_splits)

lemma set_base_np [simp]: "no_pending_current (set_base b c) = no_pending_current c"
  by (simp add: set_base_def no_pending_current_def)

lemma onStop_np [simp]: "no_pending_current (snd (onStop w c)) = no_pending_current c"
  by (simp add: onStop_def no_pending_current_def)

lemma start_np [simp]:
  "no_pending_current c \<Longrightarrow> no_pending_current (fst (snd (start w c)))"
  unfolding start_def
  by (simp add: split_beta split: option.splits)

lemma stop_np [simp]:
  "no_pending_current c \<Longrightarrow> no_pending_current (fst (snd (stop w c wt)))"
  unfolding stop_def
  by (simp add: split_beta split: option.splits)

lemma Refresh_np [simp]:
  "no_pending_current c \<Longrightarrow> no_pending_current (fst (snd (Refresh w c)))"
  unfolding Refresh_def
  by (simp add: split_beta split: sum.splits)

lemma RefreshFromHandle_np [simp]:
  "no_pending_current c \<Longrightarrow> no_pending_current (fst (RefreshFromHandle h c))"
  unfolding RefreshFromHandle_def
  by (auto simp: Let_def split: option.splits)

lemma LogReader_np [simp]:
  "no_pending_current c \<Longrightarrow> no_pending_current (fst (snd (LogReader w c t f)))"
  unfolding LogReader_def
  by (auto simp add: split_beta no_pending_current_def split: sum.splits option.splits)

lemma Remove_revert_np [simp]:
  "no_pending_current c \<Longrightarrow> no_pending_current (fst (snd (Remove_revert s e w c)))"
  unfolding Remove_revert_def
  by (simp add: split_beta)

lemma Remove_finish_np [simp]:
  "no_pending_current c \<Longrightarrow> no_pending_current (fst (snd (Remove_finish s e w c)))"
  unfolding Remove_finish_def
  by (simp add: split_beta split: option.splits)

lemma Remove_np [simp]:
  "no_pending_current c \<Longrightarrow> no_pending_current (fst (snd (Remove w sess c)))"
  unfolding Remove_def
  by (simp add: split_beta split: sum.splits option.splits error.splits fault.splits)


lemma onStop_state [simp]: "state (snd (onStop w c)) = state c"
  by (simp add: onStop_def)

lemma newContainer_np: "no_pending_current (newContainer b)"
  by (simp add: newContainer_def no_pending_current_def Let_def)

lemma failing_world_heads:
  "shd (base_start_results failing_world) = Some (TaskError (OtherFault ''power''))"
  "shd (base_stop_results failing_world) = Some (TaskError (OtherFault ''power''))"
  by (simp_all add: failing_world_def)

lemma running_container_facts:
  "vm running_container = Some ''vm-1''" "state running_container = StateRunning"
  by (simp_all add: running_container_def newContainer_def example_base_def)

lemma waiting_container_facts:
  "state waiting_container = StateRunning"
  "newStateEvents waiting_container = [StateStopped \<mapsto> 1]"
  "vm waiting_container = Some ''vm-1''"
  by (simp_all add: waiting_container_def WaitForState_def running_container_def
      newContainer_def example_base_def make_chan_def calm_world_def)

subsection \<open>Failed start and failed stop\<close>

text \<open>
  Claim C3, as the code has it. When \<^verbatim>\<open>Container.start\<close> fails because the underlying
  power-on returns an error, the error is returned and the container is left in
  \<^verbatim>\<open>StateStarting\<close>. When \<^verbatim>\<open>Container.stop\<close> fails, the error is returned and the
  deferred \<^verbatim>\<open>updateState(finalState)\<close> puts the container back into the state it had
  before the stop was attempted: the prior state is restored.
\<close>

theorem failed_start_and_failed_stop:
  "(vm c \<noteq> None \<and> shd (base_start_results w) = Some err \<longrightarrow>
      snd (snd (start w c)) = Some err \<and> state (fst (snd (start w c))) = StateStarting) \<and>
   (shd (base_stop_results w) = Some err \<longrightarrow>
      snd (snd (stop w c waitTime)) = Some err \<and> state (fst (snd (stop w c waitTime))) = state c)"
  by (auto simp add: start_def stop_def base_start_def base_stop_def split_beta)

theorem failed_start_and_failed_stop_witness:
  "vm running_container \<noteq> None \<and>
   shd (base_start_results failing_world) = Some (TaskError (OtherFault ''power'')) \<and>
   shd (base_stop_results failing_world) = Some (TaskError (OtherFault ''power'')) \<and>
   state (fst (snd (start failing_world running_container))) = StateStarting \<and>
   state (fst (snd (stop failing_world running_container None))) = StateRunning"
  using failed_start_and_failed_stop [of running_container failing_world
      "TaskError (OtherFault ''power'')" None]
  by (simp add: failing_world_heads running_container_facts)

text \<open>
  Claim C3 as stated says that a failed stop does not restore the prior state. A running
  container whose stop fails is running again when \<^verbatim>\<open>stop\<close> returns.
\<close>

theorem failed_stop_restores_Running:
  "state running_container = StateRunning \<and>
   snd (snd (stop failing_world running_container None)) = Some (TaskError (OtherFault ''power'')) \<and>
   state (fst (snd (stop failing_world running_container None))) = StateRunning"
  by (simp add: stop_def base_stop_def split_beta failing_world_heads running_container_facts)

subsection \<open>No subscription is pending for the current state\<close>

text \<open>
  Claim C9. A new container has no subscription for its state, and every call that
  writes a container (\<^verbatim>\<open>SetState\<close>, \<^verbatim>\<open>WaitForState\<close>, \<^verbatim>\<open>Refresh\<close>,
  \<^verbatim>\<open>RefreshFromHandle\<close>, \<^verbatim>\<open>start\<close>, \<^verbatim>\<open>stop\<close>, \<^verbatim>\<open>onStop\<close>, \<^verbatim>\<open>LogReader\<close>,
  \<^verbatim>\<open>Remove\<close>) keeps the invariant that the subscription map has no entry for the
  current state. \<^verbatim>\<open>SetState(s)\<close> with \<open>s\<close> the current state returns \<open>s\<close> and changes
  nothing: not the state, not the map, and no channel is closed.
\<close>

theorem no_subscription_pending_for_current_state:
  "no_pending_current (newContainer base) \<and>
   (no_pending_current c \<longrightarrow> no_pending_current (snd (exec_call k w c))) \<and>
   SetState (state c) w c = (w, c, state c)"
  by (cases k) (simp_all add: SetState_def split_beta updateState_same newContainer_np)

theorem no_subscription_pending_for_current_state_witness:
  "no_pending_current waiting_container \<and>
   no_pending_current (snd (exec_call (DoStop None) calm_world waiting_container))"
  using no_subscription_pending_for_current_state
    [of example_base waiting_container "DoStop None" calm_world]
  by (simp add: no_pending_current_def waiting_container_facts)

subsection \<open>A subscription is signalled exactly once\<close>

lemma chans_ok_iff:
  "chans_ok w c \<longleftrightarrow>
     (\<forall>ch \<in> set (close_log w). ch < next_chan w) \<and>
     (\<forall>s ch. newStateEvents c s = Some ch \<longrightarrow>
        ch < next_chan w \<and> ch \<notin> set (close_log w) \<and>
        (\<forall>t. t \<noteq> s \<longrightarrow> newStateEvents c t \<noteq> Some ch))"
  by (auto simp add: chans_ok_def registered_once_def is_closed_def list_all_iff
      all_states_UNIV split: option.splits)

lemma SetState_cases:
  assumes "SetState t w c = (w', c', p)"
  obtains (same) "t = state c" "w' = w" "c' = c"
  | (quiet) "t \<noteq> state c" "newStateEvents c t = None" "w' = w" "c' = c\<lparr>state := t\<rparr>"
  | (fire) x where "t \<noteq> state c" "newStateEvents c t = Some x"
      "w' = w\<lparr>close_log := close_log w @ [x]\<rparr>"
      "c' = c\<lparr>state := t, newStateEvents := (newStateEvents c)(t := None)\<rparr>"
  using assms
  by (auto simp add: SetState_def updateState_def Let_def close_chan_def
      split: option.splits if_splits)

lemma WaitForState_cases:
  assumes "WaitForState t w c = (w', c', x)"
  obtains (current) "t = state c" "w' = w" "c' = c" "x = closedEventChannel"
  | (known) "t \<noteq> state c" "newStateEvents c t = Some x" "w' = w" "c' = c"
  | (fresh) "t \<noteq> state c" "newStateEvents c t = None" "x = next_chan w"
      "w' = w\<lparr>next_chan := Suc (next_chan w)\<rparr>"
      "c' = c\<lparr>newStateEvents := (newStateEvents c)(t \<mapsto> next_chan w)\<rparr>"
  using assms
  by (auto simp add: WaitForState_def make_chan_def Let_def split: option.splits if_splits)

lemma fired_SetState:
  assumes "fired ch n w c" and "SetState t w c = (w', c', p)"
  shows "fired ch n w' c'"
  using assms(2)
proof (cases rule: SetState_cases)
  case same
  with assms(1) show ?thesis by simp
next
  case quiet
  with assms(1) show ?thesis by (simp add: fired_def)
next
  case (fire x)
  with assms(1) have "x \<noteq> ch" by (auto simp add: fired_def)
  with fire assms(1) show ?thesis by (simp add: fired_def)
qed

lemma fired_WaitForState:
  assumes "fired ch n w c" and "WaitForState t w c = (w', c', x)"
  shows "fired ch n w' c'"
  using assms(2)
proof (cases rule: WaitForState_cases)
  case current
  with assms(1) show ?thesis by simp
next
  case known
  with assms(1) show ?thesis by simp
next
  case fresh
  with assms(1) show ?thesis by (auto simp add: fired_def)
qed

lemma fired_run:
  "fired ch n w c \<Longrightarrow> count_list (close_log (fst (run_state_calls cs w c))) ch = n"
proof (induction cs w c rule: run_state_calls.induct)
  case (1 w c)
  then show ?case by (simp add: fired_def)
next
  case (2 t cs w c)
  obtain w' c' p where r: "SetState t w c = (w', c', p)" by (cases "SetState t w c") auto
  from fired_SetState [OF "2.prems" r] "2.IH" r show ?case by simp
next
  case (3 t cs w c)
  obtain w' c' p where r: "WaitForState t w c = (w', c', p)" by (cases "WaitForState t w c") auto
  from fired_WaitForState [OF "3.prems" r] "3.IH" r show ?case by simp
qed

lemma pending_SetState_other:
  assumes "pending_on ch s w c" and "t \<noteq> s" and "SetState t w c = (w', c', p)"
  shows "pending_on ch s w' c'"
  using assms(3)
proof (cases rule: SetState_cases)
  case same
  with assms(1) show ?thesis by simp
next
  case quiet
  with assms(1,2) show ?thesis by (simp add: pending_on_def)
next
  case (fire x)
  with assms(1,2) have "x \<noteq> ch" by (auto simp add: pending_on_def)
  with fire assms(1,2) show ?thesis by (simp add: pending_on_def)
qed

lemma pending_SetState_same:
  assumes "pending_on ch s w c" and "SetState s w c = (w', c', p)"
  shows "fired ch 1 w' c'"
  using assms(2)
proof (cases rule: SetState_cases)
  case same
  with assms(1) show ?thesis by (simp add: pending_on_def)
next
  case quiet
  with assms(1) show ?thesis by (simp add: pending_on_def)
next
  case (fire x)
  with assms(1) have "x = ch" by (simp add: pending_on_def)
  with fire assms(1) show ?thesis by (auto simp add: pending_on_def fired_def)
qed

lemma pending_WaitForState:
  assumes "pending_on ch s w c" and "WaitForState t w c = (w', c', x)"
  shows "pending_on ch s w' c'"
  using assms(2)
proof (cases rule: WaitForState_cases)
  case current
  with assms(1) show ?thesis by simp
next
  case known
  with assms(1) show ?thesis by simp
next
  case fresh
  with assms(1) have "t \<noteq> s" and "next_chan w \<noteq> ch" by (auto simp add: pending_on_def)
  with fresh assms(1) show ?thesis by (simp add: pending_on_def)
qed

lemma pending_run:
  "pending_on ch s w c \<Longrightarrow>
   count_list (close_log (fst (run_state_calls cs w c))) ch =
     (if CallSetState s \<in> set cs then 1 else 0)"
proof (induction cs w c rule: run_state_calls.induct)
  case (1 w c)
  then show ?case by (simp add: pending_on_def)
next
  case (2 t cs w c)
  obtain w' c' p where r: "SetState t w c = (w', c', p)" by (cases "SetState t w c") auto
  show ?case
  proof (cases "t = s")
    case True
    from pending_SetState_same "2.prems" r True have "fired ch 1 w' c'" by blast
    from fired_run [OF this] r True show ?thesis by simp
  next
    case False
    from pending_SetState_other [OF "2.prems" False r] "2.IH" r False show ?thesis by simp
  qed
next
  case (3 t cs w c)
  obtain w' c' p where r: "WaitForState t w c = (w', c', p)" by (cases "WaitForState t w c") auto
  from pending_WaitForState [OF "3.prems" r] "3.IH" r show ?case by simp
qed

lemma WaitForState_pending:
  assumes "chans_ok w c" and "s \<noteq> state c" and "WaitForState s w c = (w', c', ch)"
  shows "pending_on ch s w' c'"
  using assms(3)
proof (cases rule: WaitForState_cases)
  case current
  with assms(2) show ?thesis by simp
next
  case known
  with assms(1,2) show ?thesis
    by (simp add: chans_ok_iff pending_on_def count_list_0_iff)
next
  case fresh
  from assms(1) have "newStateEvents c t \<noteq> Some (next_chan w)" for t
    by (auto simp add: chans_ok_iff)
  moreover from assms(1) have "next_chan w \<notin> set (close_log w)"
    by (auto simp add: chans_ok_iff)
  ultimately show ?thesis using fresh assms(2)
    by (simp add: pending_on_def count_list_0_iff)
qed

text \<open>
  Claim C7. On a container whose channels are well formed, \<^verbatim>\<open>WaitForState(s)\<close> called
  in state \<open>s\<close> returns the closed channel \<^verbatim>\<open>closedEventChannel\<close> and changes
  nothing. Called in another state it returns a channel that is open, and after any
  further run of \<^verbatim>\<open>SetState\<close> and \<^verbatim>\<open>WaitForState\<close> calls the number of times that
  channel has been closed is one if the run contains \<^verbatim>\<open>SetState(s)\<close> and zero
  otherwise: it is closed by the first \<^verbatim>\<open>SetState(s)\<close>, not before, and never again.
\<close>

theorem WaitForState_signalled_exactly_once:
  assumes "chans_ok w c" and "is_closed w closedEventChannel"
  shows "(s = state c \<longrightarrow>
            WaitForState s w c = (w, c, closedEventChannel) \<and> is_closed w closedEventChannel) \<and>
         (s \<noteq> state c \<longrightarrow>
            (case WaitForState s w c of
               (w1, c1, ch) \<Rightarrow>
                 \<not> is_closed w1 ch \<and>
                 (\<forall>cs. count_list (close_log (fst (run_state_calls cs w1 c1))) ch =
                         (if CallSetState s \<in> set cs then 1 else 0))))"
proof (intro conjI impI)
  assume "s = state c"
  then show "WaitForState s w c = (w, c, closedEventChannel)" by (simp add: WaitForState_def)
next
  show "is_closed w closedEventChannel" by (rule assms(2))
next
  assume ne: "s \<noteq> state c"
  obtain w1 c1 ch where r: "WaitForState s w c = (w1, c1, ch)"
    by (cases "WaitForState s w c") auto
  from WaitForState_pending [OF assms(1) ne r] have p: "pending_on ch s w1 c1" .
  then have "\<not> is_closed w1 ch" by (simp add: pending_on_def is_closed_def count_list_0_iff)
  with pending_run [OF p] r
  show "case WaitForState s w c of
          (w1, c1, ch) \<Rightarrow>
            \<not> is_closed w1 ch \<and>
            (\<forall>cs. count_list (close_log (fst (run_state_calls cs w1 c1))) ch =
                    (if CallSetState s \<in> set cs then 1 else 0))"
    by simp
qed


theorem WaitForState_signalled_exactly_once_witness:
  "chans_ok calm_world running_container \<and> is_closed calm_world closedEventChannel \<and>
   StateStopped \<noteq> state running_container \<and>
   (case WaitForState StateStopped calm_world running_container of
      (w1, c1, ch) \<Rightarrow>
        \<not> is_closed w1 ch \<and>
        count_list (close_log (fst (run_state_calls [CallSetState StateStopping] w1 c1))) ch = 0 \<and>
        count_list (close_log (fst (run_state_calls
          [CallSetState StateStopping, CallSetState StateStopped, CallSetState StateRunning]
          w1 c1))) ch = 1)"
proof -
  have ok: "chans_ok calm_world running_container"
    by (simp add: chans_ok_def all_states_def calm_world_def running_container_def
        newContainer_def example_base_def closedEventChannel_def)
  have cl: "is_closed calm_world closedEventChannel"
    by (simp add: is_closed_def calm_world_def)
  have ne: "StateStopped \<noteq> state running_container"
    by (simp add: running_container_facts)
  obtain w1 c1 ch where r: "WaitForState StateStopped calm_world running_container = (w1, c1, ch)"
    by (cases "WaitForState StateStopped calm_world running_container") auto
  from WaitForState_signalled_exactly_once [OF ok cl, of StateStopped] ne r
  have open_ch: "\<not> is_closed w1 ch"
    and cnt: "\<And>cs. count_list (close_log (fst (run_state_calls cs w1 c1))) ch =
                 (if CallSetState StateStopped \<in> set cs then 1 else 0)"
    by simp_all
  from cnt [of "[CallSetState StateStopping]"]
    cnt [of "[CallSetState StateStopping, CallSetState StateStopped, CallSetState StateRunning]"]
    open_ch ok cl ne r
  show ?thesis by simp
qed


section \<open>Properties of Commit\<close>

lemma reconfigure_specs_append [simp]:
  "reconfigure_specs (xs @ ys) = reconfigure_specs xs @ reconfigure_specs ys"
  by (induction xs rule: reconfigure_specs.induct) simp_all

lemma attempt_no_refresh:
  assumes "Spec h = Some s" and "vm h = Some ref" and "Runtime h = Some rt" and "Config h = Some cf"
  shows "reconfigure_attempt False w h =
           (let s' = (if PowerState rt = PoweredOn
                      then s\<lparr>ChangeVersion := VirtualMachineConfigInfo.ChangeVersion cf, ExtraConfig := None\<rparr>
                      else s\<lparr>ChangeVersion := VirtualMachineConfigInfo.ChangeVersion cf\<rparr>)
            in (w\<lparr>Reconfigure_results := stl (Reconfigure_results w),
                   calls := calls w @ [CallReconfigure ref s']\<rparr>,
                h\<lparr>Spec := Some s'\<rparr>,
                attempt_result (shd (Reconfigure_results w))))"
  using assms
  by (simp add: reconfigure_attempt_def ask_Reconfigure_def attempt_result_def Let_def
      split: option.splits)

lemma attempt_refresh_failed:
  assumes "shd (updates_results w) = Inl e"
  shows "reconfigure_attempt True w h =
           (case Spec h of None \<Rightarrow> (w, h, Failed NilPointerPanic)
            | Some s \<Rightarrow> reconfigure_attempt False
               (w\<lparr>updates_results := stl (updates_results w), calls := calls w @ [CallUpdates]\<rparr>) h)"
  using assms
  by (simp add: reconfigure_attempt_def ask_updates_def split: option.splits)

lemma attempt_refresh_ok:
  assumes "shd (updates_results w) = Inr b"
  shows "reconfigure_attempt True w h =
           (case Spec h of None \<Rightarrow> (w, h, Failed NilPointerPanic)
            | Some s \<Rightarrow> reconfigure_attempt False
               (w\<lparr>updates_results := stl (updates_results w), calls := calls w @ [CallUpdates]\<rparr>)
               (h\<lparr>Runtime := Runtime b, Config := Config b\<rparr>))"
  using assms
  by (simp add: reconfigure_attempt_def ask_updates_def split: option.splits)

lemma attempt_step:
  assumes "Spec h = Some s" and "vm h = Some ref" and "Runtime h = Some rt" and "Config h = Some cf"
    and "refresh \<longrightarrow> complete_update (shd (updates_results w))"
  shows "\<exists>w' h' s' rt' cf'.
     reconfigure_attempt refresh w h = (w', h', attempt_result (shd (Reconfigure_results w))) \<and>
     Spec h' = Some s' \<and> vm h' = Some ref \<and> Runtime h' = Some rt' \<and> Config h' = Some cf' \<and>
     [VirtualMachineConfigInfo.ChangeVersion cf'] =
        known_versions (Suc 0) refresh (VirtualMachineConfigInfo.ChangeVersion cf) (updates_results w) \<and>
     VirtualMachineConfigSpec.ChangeVersion s' = VirtualMachineConfigInfo.ChangeVersion cf' \<and>
     Payload s' = Payload s \<and>
     calls w' = calls w @ (if refresh then [CallUpdates] else []) @ [CallReconfigure ref s'] \<and>
     Reconfigure_results w' = stl (Reconfigure_results w) \<and>
     updates_results w' = (if refresh then stl (updates_results w) else updates_results w)"
proof (cases refresh)
  case False
  with assms show ?thesis
    by (simp add: attempt_no_refresh [where s = s and ref = ref and rt = rt and cf = cf] Let_def)
next
  case True
  show ?thesis
  proof (cases "shd (updates_results w)")
    case (Inl e)
    with True assms show ?thesis
      by (simp add: attempt_refresh_failed [OF Inl]
          attempt_no_refresh [where s = s and ref = ref and rt = rt and cf = cf] Let_def)
  next
    case (Inr b)
    with True assms(5) obtain cf1 rt1 where b: "Config b = Some cf1" "Runtime b = Some rt1"
      by (auto simp add: complete_update_def)
    with True assms Inr show ?thesis
      by (simp add: attempt_refresh_ok [OF Inr]
          attempt_no_refresh [where s = s and ref = ref and rt = rt1 and cf = cf1] Let_def)
  qed
qed

lemma list_all_stake_Suc:
  "list_all P (stake (Suc k) us) \<Longrightarrow> P (shd us) \<and> list_all P (stake k (stl us)) \<and> list_all P (stake k us)"
proof (induction k arbitrary: us)
  case 0
  then show ?case by simp
next
  case (Suc k)
  from Suc.prems have a: "P (shd us)" and b: "list_all P (stake (Suc k) (stl us))" by simp_all
  from Suc.IH [OF b] a b show ?case by simp
qed

lemma reconfigure_loop_retries:
  assumes "Spec h = Some s" and "vm h = Some ref" and "Runtime h = Some rt" and "Config h = Some cf"
    and "Reconfigure_results w = replicate n (Some (TaskError ConcurrentAccess)) @- (r ## rest)"
    and "r \<noteq> Some (TaskError ConcurrentAccess)"
    and "list_all complete_update (stake (Suc n) (updates_results w))"
  shows "\<exists>w' h' cs.
     reconfigure_loop refresh w h = Some (w', h', r) \<and>
     calls w' = calls w @ cs \<and>
     map VirtualMachineConfigSpec.ChangeVersion (reconfigure_specs cs) =
       known_versions (Suc n) refresh (VirtualMachineConfigInfo.ChangeVersion cf) (updates_results w) \<and>
     map Payload (reconfigure_specs cs) = replicate (Suc n) (Payload s) \<and>
     count_list cs CallUpdates = n + (if refresh then 1 else 0) \<and>
     Reconfigure_results w' = rest"
  using assms
proof (induction n arbitrary: refresh w h s rt cf)
  case 0
  from "0.prems"(7) have cu: "refresh \<longrightarrow> complete_update (shd (updates_results w))" by simp
  from attempt_step [OF "0.prems"(1-4) cu]
  obtain w' h' s' rt' cf' where
    st: "reconfigure_attempt refresh w h = (w', h', attempt_result (shd (Reconfigure_results w)))"
    and h': "Spec h' = Some s'" "vm h' = Some ref" "Runtime h' = Some rt'" "Config h' = Some cf'"
    and v: "[VirtualMachineConfigInfo.ChangeVersion cf'] =
        known_versions (Suc 0) refresh (VirtualMachineConfigInfo.ChangeVersion cf) (updates_results w)"
    and sv: "VirtualMachineConfigSpec.ChangeVersion s' = VirtualMachineConfigInfo.ChangeVersion cf'"
    and pl: "Payload s' = Payload s"
    and cl: "calls w' = calls w @ (if refresh then [CallUpdates] else []) @ [CallReconfigure ref s']"
    and rr: "Reconfigure_results w' = stl (Reconfigure_results w)"
    and uu: "updates_results w' = (if refresh then stl (updates_results w) else updates_results w)"
    by (elim exE conjE) (rule that)
  from "0.prems"(5) have hd: "shd (Reconfigure_results w) = r" and tl: "stl (Reconfigure_results w) = rest"
    by simp_all
  from "0.prems"(6) have res: "reconfigure_loop refresh w h = Some (w', h', r)"
    by (subst reconfigure_loop.simps)
      (auto simp add: st hd attempt_result_def split: option.splits)
  show ?case
    apply (rule exI [of _ w'], rule exI [of _ h'])
    apply (rule exI [of _ "(if refresh then [CallUpdates] else []) @ [CallReconfigure ref s']"])
    using res cl rr tl v [symmetric] sv pl
    by (simp del: known_versions.simps)
next
  case (Suc n)
  from Suc.prems(7) have cu: "refresh \<longrightarrow> complete_update (shd (updates_results w))" by simp
  from attempt_step [OF Suc.prems(1-4) cu]
  obtain w1 h1 s1 rt1 cf1 where
    st: "reconfigure_attempt refresh w h = (w1, h1, attempt_result (shd (Reconfigure_results w)))"
    and h1: "Spec h1 = Some s1" "vm h1 = Some ref" "Runtime h1 = Some rt1" "Config h1 = Some cf1"
    and v: "[VirtualMachineConfigInfo.ChangeVersion cf1] =
        known_versions (Suc 0) refresh (VirtualMachineConfigInfo.ChangeVersion cf) (updates_results w)"
    and sv: "VirtualMachineConfigSpec.ChangeVersion s1 = VirtualMachineConfigInfo.ChangeVersion cf1"
    and pl: "Payload s1 = Payload s"
    and cl: "calls w1 = calls w @ (if refresh then [CallUpdates] else []) @ [CallReconfigure ref s1]"
    and rr: "Reconfigure_results w1 = stl (Reconfigure_results w)"
    and uu: "updates_results w1 = (if refresh then stl (updates_results w) else updates_results w)"
    by (elim exE conjE) (rule that)
  from Suc.prems(5) have hd: "shd (Reconfigure_results w) = Some (TaskError ConcurrentAccess)"
    and tl: "Reconfigure_results w1 = replicate n (Some (TaskError ConcurrentAccess)) @- (r ## rest)"
    by (simp_all add: rr)
  from list_all_stake_Suc [OF Suc.prems(7)] uu
  have cu1: "list_all complete_update (stake (Suc n) (updates_results w1))"
    by (simp split: if_splits)
  from Suc.IH [OF h1 tl Suc.prems(6) cu1, of True]
  obtain w' h' cs where
    res1: "reconfigure_loop True w1 h1 = Some (w', h', r)"
    and cl1: "calls w' = calls w1 @ cs"
    and v1: "map VirtualMachineConfigSpec.ChangeVersion (reconfigure_specs cs) =
       known_versions (Suc n) True (VirtualMachineConfigInfo.ChangeVersion cf1) (updates_results w1)"
    and pl1: "map Payload (reconfigure_specs cs) = replicate (Suc n) (Payload s1)"
    and cn1: "count_list cs CallUpdates = n + 1"
    and rr1: "Reconfigure_results w' = rest"
    by (elim exE conjE) (rule that, simp_all)
  have res: "reconfigure_loop refresh w h = Some (w', h', r)"
    by (subst reconfigure_loop.simps) (simp add: st hd attempt_result_def res1)
  have kv: "known_versions (Suc (Suc n)) refresh (VirtualMachineConfigInfo.ChangeVersion cf) (updates_results w) =
      VirtualMachineConfigInfo.ChangeVersion cf1 #
      known_versions (Suc n) True (VirtualMachineConfigInfo.ChangeVersion cf1) (updates_results w1)"
    using v uu by (simp add: Let_def)
  show ?case
    apply (rule exI [of _ w'], rule exI [of _ h'])
    apply (rule exI [of _ "(if refresh then [CallUpdates] else []) @ [CallReconfigure ref s1] @ cs"])
    using res cl cl1 rr1 kv sv pl pl1 v1 cn1
    by (simp del: known_versions.simps)
qed

lemma Commit_stop_frame:
  assumes "Commit_stop w h waitTime = (w2, h2, refresh, r)"
  shows "Spec h2 = Spec h" and "vm h2 = vm h" and "targetState h2 = targetState h"
    and "ExecConfig h2 = ExecConfig h"
  using assms
  by (auto simp add: Commit_stop_def split: if_splits option.splits prod.splits sum.splits)

lemma new_calls_append: "calls w' = calls w @ cs \<Longrightarrow> new_calls w w' = cs"
  by (simp add: new_calls_def)

text \<open>
  Claim C1. Take a Commit on a handle with a VM and a pending specification that reaches
  the reconfigure block (the stop block has returned without error, and the handle has its
  runtime and configuration, as has every refreshed copy). Let the platform answer the
  reconfigure calls with \<open>n\<close> \<^verbatim>\<open>ConcurrentAccess\<close> faults and then with \<open>r\<close>, which is
  success or any other error. Then the block returns \<open>r\<close> after exactly \<open>n + 1\<close>
  reconfigure calls; the calls carry the change-versions known at each attempt (the
  handle's, replaced by the refreshed one whenever a refresh succeeds) and the payload of
  the pending specification; every retry is preceded by a refresh; no further answer of the
  platform is consumed. If \<open>r\<close> is an error, Commit returns it at once; if \<open>r\<close> is
  success, Commit goes on to the start block.
\<close>

theorem Commit_retries_reconfigure_on_ConcurrentAccess_only:
  assumes "vm h = Some ref" and "Spec h = Some sp"
    and "Commit_stop w h waitTime = (w2, h2, refresh, None)"
    and "Runtime h2 \<noteq> None" and "Config h2 = Some cf"
    and "Reconfigure_results w2 = replicate n (Some (TaskError ConcurrentAccess)) @- (r ## rest)"
    and "r \<noteq> Some (TaskError ConcurrentAccess)"
    and "list_all complete_update (stake (Suc n) (updates_results w2))"
  shows "\<exists>w3 h3.
     Commit_reconfigure refresh w2 h2 = Some (w3, h3, r) \<and>
     length (reconfigure_specs (new_calls w2 w3)) = Suc n \<and>
     map VirtualMachineConfigSpec.ChangeVersion (reconfigure_specs (new_calls w2 w3)) =
       known_versions (Suc n) refresh (VirtualMachineConfigInfo.ChangeVersion cf) (updates_results w2) \<and>
     map Payload (reconfigure_specs (new_calls w2 w3)) = replicate (Suc n) (Payload sp) \<and>
     count_list (new_calls w2 w3) CallUpdates = n + (if refresh then 1 else 0) \<and>
     Reconfigure_results w3 = rest \<and>
     Commit w sess h waitTime =
       (case r of
          Some err \<Rightarrow> Some (w3, h3, Some err)
        | None \<Rightarrow> Some (Commit_finish False w3 h3))"
proof -
  from Commit_stop_frame [OF assms(3)] assms(1,2)
  have sp2: "Spec h2 = Some sp" and vm2: "vm h2 = Some ref" by simp_all
  from assms(4) obtain rt where rt: "Runtime h2 = Some rt" by auto
  from reconfigure_loop_retries [OF sp2 vm2 rt assms(5) assms(6) assms(7) assms(8), of refresh]
  obtain w3 h3 cs where
    res: "reconfigure_loop refresh w2 h2 = Some (w3, h3, r)"
    and cl: "calls w3 = calls w2 @ cs"
    and v: "map VirtualMachineConfigSpec.ChangeVersion (reconfigure_specs cs) =
       known_versions (Suc n) refresh (VirtualMachineConfigInfo.ChangeVersion cf) (updates_results w2)"
    and pl: "map Payload (reconfigure_specs cs) = replicate (Suc n) (Payload sp)"
    and cn: "count_list cs CallUpdates = n + (if refresh then 1 else 0)"
    and rr: "Reconfigure_results w3 = rest"
    by (elim exE conjE) (rule that)
  have cr: "Commit_reconfigure refresh w2 h2 = Some (w3, h3, r)"
    using sp2 rt res by (simp add: Commit_reconfigure_def)
  from pl have len: "length (reconfigure_specs cs) = Suc n"
    by (metis length_map length_replicate)
  have cm: "Commit w sess h waitTime =
       (case r of Some err \<Rightarrow> Some (w3, h3, Some err) | None \<Rightarrow> Some (Commit_finish False w3 h3))"
    using assms(1,3) cr by (simp add: Commit_def split: option.splits)
  show ?thesis
    apply (rule exI [of _ w3], rule exI [of _ h3])
    using cr len v pl cn rr cm new_calls_append [OF cl]
    by (simp del: known_versions.simps)
qed

theorem Commit_retries_reconfigure_on_ConcurrentAccess_only_witness:
  "vm example_handle = Some ''vm-1'' \<and> Spec example_handle = Some example_spec \<and>
   Commit_stop contended_world example_handle None = (contended_world, example_handle, True, None) \<and>
   Runtime example_handle \<noteq> None \<and>
   Reconfigure_results contended_world =
     replicate (Suc 0) (Some (TaskError ConcurrentAccess)) @- (None ## sconst None) \<and>
   list_all complete_update (stake (Suc (Suc 0)) (updates_results contended_world)) \<and>
   (\<exists>w3 h3.
      Commit contended_world None example_handle None = Some (Commit_finish False w3 h3) \<and>
      map VirtualMachineConfigSpec.ChangeVersion (reconfigure_specs (new_calls contended_world w3)) =
        [''v2'', ''v3''] \<and>
      count_list (new_calls contended_world w3) CallUpdates = 2)"
proof -
  have a1: "vm example_handle = Some ''vm-1''" and a2: "Spec example_handle = Some example_spec"
    and a4: "Runtime example_handle \<noteq> None"
    and a5: "Config example_handle = Some \<lparr>VirtualMachineConfigInfo.ChangeVersion = ''v1''\<rparr>"
    by (simp_all add: example_handle_def)
  have a3: "Commit_stop contended_world example_handle None =
      (contended_world, example_handle, True, None)"
    by (simp add: Commit_stop_def example_handle_def)
  have a6: "Reconfigure_results contended_world =
      replicate (Suc 0) (Some (TaskError ConcurrentAccess)) @- (None ## sconst None)"
    by (simp add: contended_world_def)
  have a7: "None \<noteq> Some (TaskError ConcurrentAccess)" by simp
  have a8: "list_all complete_update (stake (Suc (Suc 0)) (updates_results contended_world))"
    by (simp add: contended_world_def complete_update_def versioned_base_def)
  have kv: "known_versions (Suc (Suc 0)) True ''v1'' (updates_results contended_world) = [''v2'', ''v3'']"
    by (simp add: contended_world_def versioned_base_def Let_def)
  from Commit_retries_reconfigure_on_ConcurrentAccess_only [OF a1 a2 a3 a4 a5 a6 a7 a8, of None]
  show ?thesis
    using a1 a2 a3 a4 a6 a8 kv by (auto simp del: known_versions.simps)
qed

lemma quiet_extension_refl [simp]: "quiet_extension w w"
  by (simp add: quiet_extension_def)

lemma quiet_extension_trans:
  "quiet_extension w w1 \<Longrightarrow> quiet_extension w1 w2 \<Longrightarrow> quiet_extension w w2"
  by (auto simp add: quiet_extension_def)

lemma quiet_extension_new_calls:
  "quiet_extension w w' \<Longrightarrow>
     reconfigure_specs (new_calls w w') = [] \<and> take (length (calls w)) (calls w') = calls w"
  by (auto simp add: quiet_extension_def new_calls_def)

lemma quiet_extension_same_calls: "calls w' = calls w \<Longrightarrow> quiet_extension w w'"
  by (simp add: quiet_extension_def)

lemma quiet_extension_one:
  "calls w' = calls w @ [k] \<Longrightarrow> reconfigure_specs [k] = [] \<Longrightarrow> quiet_extension w w'"
  by (simp add: quiet_extension_def)

lemma updateState_calls [simp]: "calls (fst (updateState s w c)) = calls w"
  by (simp add: updateState_def Let_def close_chan_def split: option.splits)

lemma onStop_calls [simp]: "calls (fst (onStop w c)) = calls w"
  by (simp add: onStop_def)

lemma stop_calls: "calls (fst (stop w c waitTime)) = calls w @ [CallBaseStop waitTime]"
  by (simp add: stop_def base_stop_def split_beta split: option.splits)

lemma start_calls:
  "calls (fst (start w c)) = calls w @ (if vm c = None then [] else [CallBaseStart])"
  by (simp add: start_def base_start_def split_beta split: option.splits)

lemma Commit_create_quiet:
  "quiet_extension w (fst (Commit_create w sess h))"
  by (auto simp add: Commit_create_def ask_CreateVM_def ask_Folders_def cache_Put_def
      publishContainerEvent_def Let_def quiet_extension_def
      split: option.splits sum.splits prod.splits)

lemma Commit_create_ok:
  assumes "Commit_create w sess h = (w1, h1, None)"
  shows "Spec h1 = None" and "vm h1 \<noteq> None"
  using assms
  by (auto simp add: Commit_create_def Let_def
      split: option.splits sum.splits prod.splits if_splits)

lemma Commit_stop_quiet:
  "quiet_extension w (fst (Commit_stop w h waitTime))"
proof -
  have "\<exists>cs. calls (fst (Commit_stop w h waitTime)) = calls w @ cs \<and>
          (cs = [] \<or> cs = [CallBaseStop waitTime] \<or> cs = [CallBaseStop waitTime, CallUpdates])"
    by (simp add: Commit_stop_def cache_store_def publishContainerEvent_def ask_updates_def
        stop_calls split_beta split: option.splits sum.splits)
  then show ?thesis by (auto simp add: quiet_extension_def)
qed

lemma Commit_start_quiet:
  "quiet_extension w (fst (Commit_start w h))"
proof -
  have "\<exists>cs. calls (fst (Commit_start w h)) = calls w @ cs \<and> (cs = [] \<or> cs = [CallBaseStart])"
    by (simp add: Commit_start_def cache_store_def publishContainerEvent_def
        start_calls split_beta split: option.splits sum.splits)
  then show ?thesis by (auto simp add: quiet_extension_def)
qed

lemma Commit_stop_Spec [simp]: "Spec (fst (snd (Commit_stop w h waitTime))) = Spec h"
  by (simp add: Commit_stop_def split_beta split: option.splits sum.splits)

text \<open>
  Claim C2. Commit on a creation handle (no VM) whose specification is nil, or with a nil
  session, or whose ID is already in the cache, returns an error and leaves the world as
  it was: no call is made. When the creation block succeeds it clears the specification,
  Commit returns, and the calls it has added contain no reconfigure call.
\<close>

theorem Commit_creation_guards:
  assumes "vm h = None"
  shows "(Spec h = None \<or> sess = None \<or> Containers w (ID (ExecConfig h)) \<noteq> None \<longrightarrow>
            (\<exists>msg. Commit w sess h waitTime = Some (w, h, Some (Errorf msg)))) \<and>
         (\<forall>w1 h1. Commit_create w sess h = (w1, h1, None) \<longrightarrow>
            Spec h1 = None \<and>
            (\<exists>w' h' r. Commit w sess h waitTime = Some (w', h', r) \<and> Spec h' = None \<and>
               reconfigure_specs (new_calls w w') = [] \<and>
               take (length (calls w)) (calls w') = calls w))"
proof (intro conjI impI allI)
  assume "Spec h = None \<or> sess = None \<or> Containers w (ID (ExecConfig h)) \<noteq> None"
  with assms show "\<exists>msg. Commit w sess h waitTime = Some (w, h, Some (Errorf msg))"
    by (auto simp add: Commit_def Commit_create_def split: option.splits)
next
  fix w1 h1
  assume cr: "Commit_create w sess h = (w1, h1, None)"
  from Commit_create_ok [OF cr] show sp1: "Spec h1 = None" by simp
  obtain w2 h2 refresh r2 where st: "Commit_stop w1 h1 waitTime = (w2, h2, refresh, r2)"
    by (cases "Commit_stop w1 h1 waitTime") auto
  from Commit_create_quiet [of w sess h] cr have q1: "quiet_extension w w1" by simp
  from Commit_stop_quiet [of w1 h1 waitTime] st have q2: "quiet_extension w1 w2" by simp
  from Commit_stop_Spec [of w1 h1 waitTime] st sp1 have sp2: "Spec h2 = None" by simp
  from quiet_extension_trans [OF q1 q2] have q12: "quiet_extension w w2" .
  show "\<exists>w' h' r. Commit w sess h waitTime = Some (w', h', r) \<and> Spec h' = None \<and>
               reconfigure_specs (new_calls w w') = [] \<and>
               take (length (calls w)) (calls w') = calls w"
  proof (cases r2)
    case (Some err)
    with assms cr st have "Commit w sess h waitTime = Some (w2, h2, Some err)"
      by (simp add: Commit_def)
    with sp2 quiet_extension_new_calls [OF q12] show ?thesis by simp
  next
    case None
    obtain w4 r4 where fs: "Commit_start w2 h2 = (w4, r4)" by (cases "Commit_start w2 h2") auto
    from Commit_start_quiet [of w2 h2] fs have "quiet_extension w2 w4" by simp
    from quiet_extension_trans [OF q12 this] have q: "quiet_extension w w4" .
    from None assms cr st sp2 fs have "Commit w sess h waitTime = Some (w4, h2, r4)"
      by (simp add: Commit_def Commit_reconfigure_def Commit_finish_def)
    with sp2 quiet_extension_new_calls [OF q] show ?thesis by simp
  qed
qed

theorem Commit_creation_guards_witness:
  "vm creation_handle = None \<and>
   Containers contended_world (ID (ExecConfig creation_handle)) \<noteq> None \<and>
   (\<exists>msg. Commit contended_world (Some \<lparr>IsVC = True\<rparr>) creation_handle None =
       Some (contended_world, creation_handle, Some (Errorf msg))) \<and>
   (\<exists>w1 h1. Commit_create calm_world (Some \<lparr>IsVC = True\<rparr>) creation_handle = (w1, h1, None) \<and>
      (\<exists>w' h' r. Commit calm_world (Some \<lparr>IsVC = True\<rparr>) creation_handle None = Some (w', h', r) \<and>
         Spec h' = None \<and> reconfigure_specs (new_calls calm_world w') = []))"
proof -
  have v: "vm creation_handle = None" by (simp add: creation_handle_def)
  have c: "Containers contended_world (ID (ExecConfig creation_handle)) \<noteq> None"
    by (simp add: contended_world_def creation_handle_def example_handle_def example_base_def)
  obtain w1 h1 where cr:
    "Commit_create calm_world (Some \<lparr>IsVC = True\<rparr>) creation_handle = (w1, h1, None)"
    by (simp add: Commit_create_def creation_handle_def example_handle_def example_base_def
        calm_world_def ask_Folders_def ask_CreateVM_def Let_def)
  from Commit_creation_guards [OF v, of "Some \<lparr>IsVC = True\<rparr>" contended_world None] c
    Commit_creation_guards [OF v, of "Some \<lparr>IsVC = True\<rparr>" calm_world None] cr v
  show ?thesis by blast
qed


section \<open>Properties of endpoints\<close>



lemma c1_facts:
  "c1_endpoint = 2"
  "endpoints c1_store 2 = \<lparr>container = \<lparr>NetContainer.name = ''c1''\<rparr>, scope = \<lparr>Scope.name = ''bridge''\<rparr>,
      ip = [0, 0, 0, 0], static = False, ports = 0, aliases = Suc 0\<rparr>"
  "alias_maps c1_store (Suc 0) = Map.empty"
  "next_addr c1_store = 3"
  by (simp_all add: c1_store_def c1_endpoint_def newEndpoint_def bridge_store_def Let_def)



lemma copy_facts:
  assumes "allocated st x"
  shows "snd (copy st x) \<noteq> x"
    and "ports (endpoints (fst (copy st x)) (snd (copy st x))) \<noteq>
         ports (endpoints (fst (copy st x)) x)"
    and "aliases (endpoints (fst (copy st x)) (snd (copy st x))) =
         aliases (endpoints (fst (copy st x)) x)"
    and "container (endpoints (fst (copy st x)) (snd (copy st x))) =
         container (endpoints (fst (copy st x)) x)"
    and "Ports (fst (copy st x)) (snd (copy st x)) = Ports st x"
    and "Ports (fst (copy st x)) x = Ports st x"
  using assms
  by (auto simp add: copy_def allocated_def Ports_def Let_def)

lemma addPort_other:
  assumes "ports (endpoints st y) \<noteq> ports (endpoints st x)"
  shows "Ports (fst (addPort st y p)) x = Ports st x"
  using assms by (simp add: addPort_def Ports_def Let_def)

lemma addPort_self:
  "Ports (fst (addPort st y p)) y = insert p (Ports st y)"
  by (auto simp add: addPort_def Ports_def Let_def)

lemma find_alias_None: "find_alias n as = None \<longleftrightarrow> n \<notin> Name ` set as"
  by (induction as) auto

lemma find_alias_Some: "find_alias n as = Some al \<Longrightarrow> al \<in> set as \<and> Name al = n"
  by (induction as) (auto split: if_splits)

lemma addAlias_shared:
  assumes "aliases (endpoints st y) = aliases (endpoints st x)"
    and "container (endpoints st y) = container (endpoints st x)"
  shows "getAliases (fst (addAlias st y con a)) x con' = getAliases (fst (addAlias st y con a)) y con'"
  using assms
  by (simp add: addAlias_def getAliases_def Let_def split: option.splits)

lemma addAlias_present:
  assumes "a \<noteq> []"
  shows "fst (snd (addAlias st y con a)) \<in> set (getAliases (fst (addAlias st y con a)) y con) \<and>
         Name (fst (snd (addAlias st y con a))) = a"
  using assms
  by (auto simp add: addAlias_def getAliases_def lookup_aliases_def Let_def
      dest: find_alias_Some split: option.splits)

text \<open>
  Claim C10. For an endpoint \<open>x\<close> of the store, the clone \<open>y\<close> returned by
  \<^verbatim>\<open>copy\<close> starts with the ports of \<open>x\<close>, and \<open>x\<close> keeps its own; \<^verbatim>\<open>addPort\<close> on
  the clone leaves the ports of \<open>x\<close> unchanged and \<^verbatim>\<open>addPort\<close> on \<open>x\<close> leaves the
  clone's unchanged. The alias map is shared: after \<^verbatim>\<open>addAlias\<close> on the clone,
  \<^verbatim>\<open>getAliases\<close> on \<open>x\<close> gives what it gives on the clone, and for a non-empty
  name it holds the alias that \<^verbatim>\<open>addAlias\<close> returned.
\<close>

theorem copy_owns_ports_shares_aliases:
  assumes "allocated st x"
  shows "case copy st x of
           (st1, y) \<Rightarrow>
             Ports st1 y = Ports st x \<and> Ports st1 x = Ports st x \<and>
             Ports (fst (addPort st1 y p)) x = Ports st1 x \<and>
             Ports (fst (addPort st1 y p)) y = insert p (Ports st1 y) \<and>
             Ports (fst (addPort st1 x p)) y = Ports st1 y \<and>
             Ports (fst (addPort st1 x p)) x = insert p (Ports st1 x) \<and>
             (case addAlias st1 y con a of
                (st2, al, existed) \<Rightarrow>
                  getAliases st2 x con = getAliases st2 y con \<and>
                  (a \<noteq> [] \<longrightarrow> al \<in> set (getAliases st2 x con) \<and> Name al = a))"
proof -
  obtain st1 y where c: "copy st x = (st1, y)" by (cases "copy st x") auto
  from copy_facts [OF assms] c
  have ne: "ports (endpoints st1 y) \<noteq> ports (endpoints st1 x)"
    and al: "aliases (endpoints st1 y) = aliases (endpoints st1 x)"
    and co: "container (endpoints st1 y) = container (endpoints st1 x)"
    and p1: "Ports st1 y = Ports st x" and p2: "Ports st1 x = Ports st x"
    by simp_all
  obtain st2 al' existed where a: "addAlias st1 y con a = (st2, al', existed)"
    by (cases "addAlias st1 y con a") auto
  from addAlias_shared [OF al co, of con a con] a
  have sh: "getAliases st2 x con = getAliases st2 y con" by simp
  from addAlias_present [of a st1 y con] a sh
  have pr: "a \<noteq> [] \<longrightarrow> al' \<in> set (getAliases st2 x con) \<and> Name al' = a" by simp
  from c a p1 p2 sh pr addPort_other [OF ne, of p] addPort_other [OF ne [symmetric], of p]
    addPort_self [of st1 y p] addPort_self [of st1 x p]
  show ?thesis by simp
qed

lemma c1_with_port_allocated: "allocated c1_with_port c1_endpoint"
  by (simp add: allocated_def c1_with_port_def addPort_def c1_facts Let_def)

lemma c1_with_port_Ports: "Ports c1_with_port c1_endpoint = {''80/tcp''}"
  by (simp add: Ports_def c1_with_port_def addPort_def c1_facts c1_store_def newEndpoint_def
      bridge_store_def Let_def)

theorem copy_owns_ports_shares_aliases_witness:
  "allocated c1_with_port c1_endpoint \<and>
   (case copy c1_with_port c1_endpoint of
      (st1, y) \<Rightarrow>
        Ports st1 y = {''80/tcp''} \<and>
        Ports (fst (addPort st1 y ''443/tcp'')) c1_endpoint = {''80/tcp''} \<and>
        Ports (fst (addPort st1 y ''443/tcp'')) y = insert ''443/tcp'' {''80/tcp''} \<and>
        (case addAlias st1 y [] ''web'' of
           (st2, al, existed) \<Rightarrow> al \<in> set (getAliases st2 c1_endpoint []) \<and> Name al = ''web''))"
proof -
  obtain st1 y where c: "copy c1_with_port c1_endpoint = (st1, y)"
    by (cases "copy c1_with_port c1_endpoint") auto
  obtain st2 a2 existed where a: "addAlias st1 y [] ''web'' = (st2, a2, existed)"
    by (cases "addAlias st1 y [] ''web''") auto
  note T = copy_owns_ports_shares_aliases [OF c1_with_port_allocated, of "''443/tcp''" "[]" "''web''",
      unfolded c a prod.case c1_with_port_Ports]
  have ne: "''web'' \<noteq> []" by simp
  from T have p1: "Ports st1 y = {''80/tcp''}" by (elim conjE)
  from T have p2: "Ports st1 c1_endpoint = {''80/tcp''}" by (elim conjE)
  from T have p3: "Ports (fst (addPort st1 y ''443/tcp'')) c1_endpoint = Ports st1 c1_endpoint"
    by (elim conjE)
  from T have p4: "Ports (fst (addPort st1 y ''443/tcp'')) y = insert ''443/tcp'' (Ports st1 y)"
    by (elim conjE)
  from T have "''web'' \<noteq> [] \<longrightarrow> a2 \<in> set (getAliases st2 c1_endpoint []) \<and> Name a2 = ''web''"
    by (elim conjE)
  with ne have p5: "a2 \<in> set (getAliases st2 c1_endpoint [])" and p6: "Name a2 = ''web''"
    by simp_all
  show ?thesis
    unfolding c a prod.case
    using c1_with_port_allocated p1 p2 p3 p4 p5 p6 by simp
qed


section \<open>Properties of the host port functions\<close>

lemma requestHostPort_index [simp]:
  "containerByPort (fst (requestHostPort proto w)) = containerByPort w"
  "ContainerCache (fst (requestHostPort proto w)) = ContainerCache w"
  by (simp_all add: requestHostPort_def)

lemma unroll_bindings_index:
  "containerByPort (fst (unroll_bindings L proto nport pb w)) = containerByPort w"
proof (induction pb arbitrary: w)
  case Nil
  then show ?case by simp
next
  case (Cons p pb)
  show ?case
    by (cases "HostPort p = []")
      (simp_all add: Cons.IH split_beta split: sum.splits)
qed

lemma unrollPortMap_index:
  "containerByPort (fst (unrollPortMap L pm w)) = containerByPort w"
proof (induction pm arbitrary: w)
  case Nil
  then show ?case by simp
next
  case (Cons e pm)
  obtain i pb where e: "e = (i, pb)" by (cases e)
  show ?case
    by (simp add: e Cons.IH unroll_bindings_index split_beta split: sum.splits)
qed

lemma unroll_bindings_explicit:
  assumes "snd (unroll_bindings L proto nport pb w) = Inr ms"
    and "b \<in> set pb" and "HostPort b \<noteq> []" and "Atoi L (HostPort b) = Inr n"
  shows "\<exists>m \<in> set ms. strHostPort m = Itoa L n"
  using assms
proof (induction pb arbitrary: w ms)
  case Nil
  then show ?case by simp
next
  case (Cons p pb)
  let ?f = "if HostPort p = [] then requestHostPort proto w else (w, Atoi L (HostPort p))"
  from Cons.prems(1) obtain hostPort ms' where
    first: "snd ?f = Inr hostPort"
    and rest: "snd (unroll_bindings L proto nport pb (fst ?f)) = Inr ms'"
    and ms: "ms = \<lparr>intHostPort = hostPort, strHostPort = Itoa L hostPort, portProto = nport\<rparr> # ms'"
    by (auto simp add: split_beta split: sum.splits if_splits)
  show ?case
  proof (cases "b = p")
    case True
    with first Cons.prems(3,4) have "hostPort = n" by simp
    with ms show ?thesis by simp
  next
    case False
    with Cons.prems(2) have "b \<in> set pb" by simp
    from Cons.IH [OF rest this Cons.prems(3,4)] ms show ?thesis by auto
  qed
qed

lemma unrollPortMap_explicit:
  assumes "snd (unrollPortMap L pm w) = Inr ms"
    and "b \<in> set (requested pm)" and "HostPort b \<noteq> []" and "Atoi L (HostPort b) = Inr n"
  shows "\<exists>m \<in> set ms. strHostPort m = Itoa L n"
  using assms
proof (induction pm arbitrary: w ms)
  case Nil
  then show ?case by (simp add: requested_def)
next
  case (Cons e pm)
  obtain i pb where e: "e = (i, pb)" by (cases e)
  from Cons.prems(1) e obtain nport ms1 ms2 where
    first: "snd (unroll_bindings L (fst (SplitProtoPort L i)) nport pb w) = Inr ms1"
    and rest: "snd (unrollPortMap L pm
        (fst (unroll_bindings L (fst (SplitProtoPort L i)) nport pb w))) = Inr ms2"
    and ms: "ms = ms1 @ ms2"
    by (auto simp add: split_beta split: sum.splits)
  from Cons.prems(2) e have "b \<in> set pb \<or> b \<in> set (requested pm)"
    by (auto simp add: requested_def)
  then show ?case
  proof
    assume "b \<in> set pb"
    from unroll_bindings_explicit [OF first this Cons.prems(3,4)] ms show ?thesis by auto
  next
    assume "b \<in> set (requested pm)"
    from Cons.IH [OF rest this Cons.prems(3,4)] ms show ?thesis by auto
  qed
qed

lemma unmapPorts_loop_shrinks:
  "containerByPort (fst (unmapPorts_loop ms w)) k = Some v \<Longrightarrow> containerByPort w k = Some v"
proof (induction ms arbitrary: w)
  case Nil
  then show ?case by simp
next
  case (Cons p ms)
  show ?case
  proof (cases "containerByPort w (strHostPort p)")
    case None
    with Cons show ?thesis by simp
  next
    case (Some c)
    show ?thesis
    proof (cases "shd (UnmapPort_results w)")
      case None
      with Some Cons.prems have
        "containerByPort (fst (unmapPorts_loop ms
           ((fst (ask_UnmapPort p w))\<lparr>containerByPort := (containerByPort w)(strHostPort p := None)\<rparr>))) k = Some v"
        by (simp add: ask_UnmapPort_def)
      from Cons.IH [OF this] show ?thesis by (simp split: if_splits)
    next
      case (Some err)
      with \<open>containerByPort w (strHostPort p) = Some c\<close> Cons.prems show ?thesis
        by (simp add: ask_UnmapPort_def)
    qed
  qed
qed

lemma unmapPorts_loop_clears:
  assumes "snd (unmapPorts_loop ms w) = None" and "m \<in> set ms"
  shows "containerByPort (fst (unmapPorts_loop ms w)) (strHostPort m) = None"
  using assms
proof (induction ms arbitrary: w)
  case Nil
  then show ?case by simp
next
  case (Cons p ms)
  let ?k = "strHostPort m"
  show ?case
  proof (cases "containerByPort w (strHostPort p)")
    case None
    with Cons.prems(1) have ok: "snd (unmapPorts_loop ms w) = None" by simp
    show ?thesis
    proof (cases "m \<in> set ms")
      case True
      from Cons.IH [OF ok True] None show ?thesis by simp
    next
      case False
      with Cons.prems(2) have "m = p" by simp
      with None have "containerByPort w ?k = None" by simp
      with unmapPorts_loop_shrinks [of ms w ?k] None show ?thesis
        by (cases "containerByPort (fst (unmapPorts_loop ms w)) ?k") auto
    qed
  next
    case (Some c)
    let ?w1 = "(fst (ask_UnmapPort p w))\<lparr>containerByPort := (containerByPort w)(strHostPort p := None)\<rparr>"
    from Some Cons.prems(1) have hd: "shd (UnmapPort_results w) = None"
      by (cases "shd (UnmapPort_results w)") (simp_all add: ask_UnmapPort_def)
    with Some Cons.prems(1) have ok: "snd (unmapPorts_loop ms ?w1) = None"
      by (simp add: ask_UnmapPort_def)
    from Some hd have eq: "unmapPorts_loop (p # ms) w = unmapPorts_loop ms ?w1"
      by (simp add: ask_UnmapPort_def)
    show ?thesis
    proof (cases "m \<in> set ms")
      case True
      from Cons.IH [OF ok True] eq show ?thesis by simp
    next
      case False
      with Cons.prems(2) have "m = p" by simp
      then have "containerByPort ?w1 ?k = None" by simp
      with unmapPorts_loop_shrinks [of ms ?w1 ?k] eq show ?thesis
        by (cases "containerByPort (fst (unmapPorts_loop ms ?w1)) ?k") auto
    qed
  qed
qed

lemma unmapPorts_clears:
  assumes "snd (unmapPorts L hc w) = None"
    and "b \<in> set (requested (PortBindings hc))"
    and "HostPort b \<noteq> []" and "Atoi L (HostPort b) = Inr n"
  shows "containerByPort (fst (unmapPorts L hc w)) (Itoa L n) = None"
proof -
  from assms(2) have ne: "PortBindings hc \<noteq> []" by (auto simp add: requested_def)
  let ?u = "unrollPortMap L (PortBindings hc) w"
  from assms(1) ne obtain ms where ms: "snd ?u = Inr ms"
    by (cases "snd ?u") (simp_all add: unmapPorts_def split_beta)
  with ne have eq: "unmapPorts L hc w = unmapPorts_loop ms (fst ?u)"
    by (simp add: unmapPorts_def split_beta)
  from unrollPortMap_explicit [OF ms assms(2,3,4)]
  obtain m where m: "m \<in> set ms" "strHostPort m = Itoa L n" by auto
  from assms(1) eq have "snd (unmapPorts_loop ms (fst ?u)) = None" by simp
  from unmapPorts_loop_clears [OF this m(1)] m(2) eq show ?thesis by simp
qed

lemma cleanup_hostPorts_append:
  "cleanup_hostPorts L (xs @ ys) w =
     (case cleanup_hostPorts L xs w of
        (w1, Some err) \<Rightarrow> (w1, Some err)
      | (w1, None) \<Rightarrow> cleanup_hostPorts L ys w1)"
  by (induction xs arbitrary: w) (simp_all split: prod.splits option.splits)

lemma cleanup_entries_flat:
  "cleanup_entries L pm w = cleanup_hostPorts L (requested pm) w"
proof (induction pm arbitrary: w)
  case Nil
  then show ?case by (simp add: requested_def)
next
  case (Cons e pm)
  obtain ctrPort hostPorts where e: "e = (ctrPort, hostPorts)" by (cases e)
  have "requested (e # pm) = hostPorts @ requested pm" by (simp add: e requested_def)
  then show ?case
    by (simp add: e cleanup_hostPorts_append Cons.IH split: prod.splits option.splits)
qed

lemma split_facts:
  "split_proto_port ''80/tcp'' = (''tcp'', ''80'')"
  "split_proto_port ''81/tcp'' = (''tcp'', ''81'')"
  by (simp_all add: split_proto_port_def)

lemma parse_facts:
  "parse_decimal ''80'' = Inr 80"
  "parse_decimal ''81'' = Inr 81"
  "parse_decimal ''8083'' = Inr 8083"
  "parse_decimal ''8084'' = Inr 8084"
  by (simp_all add: parse_decimal_def digit_value_def)

lemma decimal_facts:
  "decimal 80 = ''80''"
  "decimal 81 = ''81''"
  "decimal 8083 = ''8083''"
  "decimal 8084 = ''8084''"
  "decimal 32768 = ''32768''"
  "decimal 32769 = ''32769''"
  "decimal 32770 = ''32770''"
  by (simp_all add: decimal_def digit_char_def nat_digits.simps [of 32770] nat_digits.simps [of 3277]
      nat_digits.simps [of 80] nat_digits.simps [of 81] nat_digits.simps [of 8]
      nat_digits.simps [of 8083] nat_digits.simps [of 8084] nat_digits.simps [of 808]
      nat_digits.simps [of 32768] nat_digits.simps [of 32769] nat_digits.simps [of 3276]
      nat_digits.simps [of 327] nat_digits.simps [of 32] nat_digits.simps [of 3])

lemma port_facts:
  "single_port ''tcp'' ''80'' = Inr ''80/tcp''"
  "single_port ''tcp'' ''81'' = Inr ''81/tcp''"
  by (simp_all add: single_port_def parse_facts decimal_facts)

lemma example_library_sel [simp]:
  "SplitProtoPort example_library = split_proto_port"
  "NewPort example_library = single_port"
  "Atoi example_library = parse_decimal"
  "Itoa example_library = decimal"
  "ParseIP example_library = (\<lambda>s. if s = [] then None else Some s)"
  by (simp_all add: example_library_def)

text \<open>
  Claim C4 fails on the code: the allocated host port is not written into the caller's
  port map. With one binding whose host port is unspecified, \<^verbatim>\<open>unrollPortMap\<close>
  returns the allocated port 32768; called again on the same port map, it finds the host
  port still unspecified and allocates 32769.
\<close>

theorem unrollPortMap_allocates_on_every_call:
  "snd (unrollPortMap example_library unspecified_bindings port_engine) =
     Inr [\<lparr>intHostPort = 32768, strHostPort = ''32768'', portProto = ''80/tcp''\<rparr>] \<and>
   snd (unrollPortMap example_library unspecified_bindings
          (fst (unrollPortMap example_library unspecified_bindings port_engine))) =
     Inr [\<lparr>intHostPort = 32769, strHostPort = ''32769'', portProto = ''80/tcp''\<rparr>]"
  by (simp add: unspecified_bindings_def binding_def port_engine_def requestHostPort_def
      split_facts port_facts decimal_facts)

lemma mapped_engine_eq:
  "mapped_engine =
     port_engine\<lparr>RequestPort_results := Inr 32769 ## Inr 32770 ##
          sconst (Inl (Errorf ''all ports are allocated'')),
        MapPort_results := sconst None,
        containerByPort := [''32768'' \<mapsto> ''c1''],
        port_calls := [CallRequestPort ''tcp'', CallMapPort 32768 ''80/tcp'' ''172.16.0.2'']\<rparr>"
  by (simp add: mapped_engine_def mapPorts_def unspecified_config_def unspecified_bindings_def
      binding_def port_engine_def requestHostPort_def ask_MapPort_def
      split_facts port_facts decimal_facts)

text \<open>
  Claim C6 fails on the code for a binding with an unspecified host port, through the
  defect of claim C4. \<^verbatim>\<open>mapPorts\<close> maps the allocated port 32768 for \<^verbatim>\<open>c1\<close>;
  \<^verbatim>\<open>unmapPorts\<close> on the same bindings, once and twice, returns no error and leaves
  32768 owned by \<^verbatim>\<open>c1\<close>, since each call unrolls a newly allocated port.
\<close>

theorem unmapPorts_leaves_allocated_port_owned:
  "containerByPort mapped_engine ''32768'' = Some ''c1'' \<and>
   snd (unmapPorts example_library unspecified_config mapped_engine) = None \<and>
   containerByPort (fst (unmapPorts example_library unspecified_config mapped_engine)) ''32768'' =
     Some ''c1'' \<and>
   snd (unmapPorts example_library unspecified_config
          (fst (unmapPorts example_library unspecified_config mapped_engine))) = None \<and>
   containerByPort (fst (unmapPorts example_library unspecified_config
          (fst (unmapPorts example_library unspecified_config mapped_engine)))) ''32768'' =
     Some ''c1''"
  by (simp add: mapped_engine_eq unmapPorts_def unspecified_config_def unspecified_bindings_def
      binding_def port_engine_def requestHostPort_def
      split_facts port_facts decimal_facts)

text \<open>
  One step of \<^verbatim>\<open>cleanupPortBindings\<close>, for a requested host port that is in the
  ownership index with its owner in the cache. If the owner is reported running, the step
  makes that one query and nothing else. If the owner is reported not running, the step is
  \<^verbatim>\<open>unmapPorts\<close> on the owner's bindings, and when it returns no error the index has
  no entry for any host port that those bindings name explicitly.
\<close>

theorem cleanupPortBindings_by_power_state:
  "cleanupPortBindings L vc w =
     cleanup_hostPorts L (requested (PortBindings (HostConfig vc))) w \<and>
   (containerByPort w (HostPort b) = Some owner \<and> ContainerCache w owner = Some cc \<longrightarrow>
      (shd (IsRunning_results w) = Inr True \<longrightarrow>
         cleanup_step L b w = (fst (ask_IsRunning cc w), None) \<and>
         containerByPort (fst (cleanup_step L b w)) = containerByPort w \<and>
         port_calls (fst (cleanup_step L b w)) = port_calls w @ [CallIsRunning (ContainerID cc)]) \<and>
      (shd (IsRunning_results w) = Inr False \<longrightarrow>
         fst (cleanup_step L b w) = fst (unmapPorts L (HostConfig cc) (fst (ask_IsRunning cc w))) \<and>
         (snd (cleanup_step L b w) = None \<longrightarrow>
            (\<forall>b' \<in> set (requested (PortBindings (HostConfig cc))).
               \<forall>n. HostPort b' \<noteq> [] \<and> Atoi L (HostPort b') = Inr n \<longrightarrow>
                 containerByPort (fst (cleanup_step L b w)) (Itoa L n) = None))))"
proof (intro conjI impI ballI allI)
  show "cleanupPortBindings L vc w =
     cleanup_hostPorts L (requested (PortBindings (HostConfig vc))) w"
    by (simp add: cleanupPortBindings_def cleanup_entries_flat)
next
  assume "containerByPort w (HostPort b) = Some owner \<and> ContainerCache w owner = Some cc"
    and "shd (IsRunning_results w) = Inr True"
  then show "cleanup_step L b w = (fst (ask_IsRunning cc w), None)"
    and "containerByPort (fst (cleanup_step L b w)) = containerByPort w"
    and "port_calls (fst (cleanup_step L b w)) = port_calls w @ [CallIsRunning (ContainerID cc)]"
    by (simp_all add: cleanup_step_def ask_IsRunning_def)
next
  assume a: "containerByPort w (HostPort b) = Some owner \<and> ContainerCache w owner = Some cc"
    and r: "shd (IsRunning_results w) = Inr False"
  let ?w1 = "fst (ask_IsRunning cc w)"
  from a r show w2: "fst (cleanup_step L b w) = fst (unmapPorts L (HostConfig cc) ?w1)"
    by (simp add: cleanup_step_def ask_IsRunning_def split_beta split: option.splits)
  fix b' n
  assume ok: "snd (cleanup_step L b w) = None"
    and b': "b' \<in> set (requested (PortBindings (HostConfig cc)))"
    and e: "HostPort b' \<noteq> [] \<and> Atoi L (HostPort b') = Inr n"
  from a r ok have "snd (unmapPorts L (HostConfig cc) ?w1) = None"
    by (simp add: cleanup_step_def ask_IsRunning_def split_beta split: option.splits)
  from unmapPorts_clears [OF this b'] e w2
  show "containerByPort (fst (cleanup_step L b w)) (Itoa L n) = None" by simp
qed

theorem cleanupPortBindings_by_power_state_witness:
  "containerByPort stale_engine (HostPort (binding ''8083'')) = Some ''c2'' \<and>
   ContainerCache stale_engine ''c2'' = Some c2_container \<and>
   shd (IsRunning_results stale_engine) = Inr False \<and>
   snd (cleanup_step example_library (binding ''8083'') stale_engine) = None \<and>
   containerByPort (fst (cleanup_step example_library (binding ''8083'') stale_engine)) ''8083'' = None \<and>
   containerByPort running_engine (HostPort (binding ''8083'')) = Some ''c2'' \<and>
   ContainerCache running_engine ''c2'' = Some c2_container \<and>
   shd (IsRunning_results running_engine) = Inr True \<and>
   containerByPort (fst (cleanup_step example_library (binding ''8083'') running_engine)) =
     containerByPort running_engine"
proof -
  have s1: "containerByPort stale_engine (HostPort (binding ''8083'')) = Some ''c2''"
    and s2: "ContainerCache stale_engine ''c2'' = Some c2_container"
    and s3: "shd (IsRunning_results stale_engine) = Inr False"
    by (simp_all add: stale_engine_def binding_def port_engine_def)
  have r1: "containerByPort running_engine (HostPort (binding ''8083'')) = Some ''c2''"
    and r2: "ContainerCache running_engine ''c2'' = Some c2_container"
    and r3: "shd (IsRunning_results running_engine) = Inr True"
    by (simp_all add: running_engine_def stale_engine_def binding_def port_engine_def)
  have ok: "snd (cleanup_step example_library (binding ''8083'') stale_engine) = None"
    by (simp add: cleanup_step_def stale_engine_def binding_def port_engine_def c2_container_def
        ask_IsRunning_def unmapPorts_def ask_UnmapPort_def split_facts port_facts parse_facts
        decimal_facts)
  have b': "binding ''8083'' \<in> set (requested (PortBindings (HostConfig c2_container)))"
    by (simp add: requested_def c2_container_def)
  have e: "HostPort (binding ''8083'') \<noteq> [] \<and>
      Atoi example_library (HostPort (binding ''8083'')) = Inr 8083"
    by (simp add: binding_def parse_facts)
  note T = cleanupPortBindings_by_power_state
    [of example_library c3_container stale_engine "binding ''8083''" "''c2''" c2_container]
  from T s1 s2 s3 ok
  have "\<forall>b' \<in> set (requested (PortBindings (HostConfig c2_container))).
          \<forall>n. HostPort b' \<noteq> [] \<and> Atoi example_library (HostPort b') = Inr n \<longrightarrow>
            containerByPort (fst (cleanup_step example_library (binding ''8083'') stale_engine))
              (Itoa example_library n) = None"
    by blast
  with b' e have gone:
    "containerByPort (fst (cleanup_step example_library (binding ''8083'') stale_engine))
       (Itoa example_library 8083) = None"
    by blast
  note R = cleanupPortBindings_by_power_state
    [of example_library c3_container running_engine "binding ''8083''" "''c2''" c2_container]
  from R r1 r2 r3
  have kept: "containerByPort (fst (cleanup_step example_library (binding ''8083'') running_engine)) =
      containerByPort running_engine"
    by blast
  from s1 s2 s3 r1 r2 r3 ok gone kept show ?thesis
    by (simp add: decimal_facts)
qed

text \<open>
  The errors of one step: the owner is not in the cache, or the query of its power state
  fails; and the loop returns the error of a step without looking at the bindings that
  follow.
\<close>

lemma cleanup_step_errors:
  "containerByPort w (HostPort b) = Some owner \<Longrightarrow> ContainerCache w owner = None \<Longrightarrow>
     cleanup_step L b w =
       (w, Some (Errorf (''Unable to find container '' @ quoted owner @
                         '' in the cache, unable to get power state'')))"
  "containerByPort w (HostPort b) = Some owner \<Longrightarrow> ContainerCache w owner = Some cc \<Longrightarrow>
     shd (IsRunning_results w) = Inl err \<Longrightarrow>
     cleanup_step L b w =
       (fst (ask_IsRunning cc w),
        Some (Wrapped (''Failed to get container '' @ quoted owner @ '' power state'') err))"
  "cleanup_step L b w = (w1, Some e) \<Longrightarrow> cleanup_hostPorts L (b # bs) w = (w1, Some e)"
  by (simp_all add: cleanup_step_def ask_IsRunning_def Let_def)

text \<open>
  An error ends the call. Container \<^verbatim>\<open>c3\<close> requests 8083 and 8084; 8083 is owned
  by a container that is no longer in the cache. The call returns the error for 8083 and
  does nothing else: no query is made, and 8084 stays owned by \<^verbatim>\<open>c4\<close>.
\<close>

theorem cleanupPortBindings_stops_at_the_first_error:
  "containerByPort orphan_engine ''8084'' = Some ''c4'' \<and>
   ContainerCache orphan_engine ''c4'' = Some c4_container \<and>
   cleanupPortBindings example_library c3_container orphan_engine =
     (orphan_engine,
      Some (Errorf (''Unable to find container '' @ quoted ''gone'' @
                    '' in the cache, unable to get power state'')))"
  by (simp add: cleanupPortBindings_def cleanup_step_def c3_container_def orphan_engine_def
      port_engine_def binding_def)

lemma half_started_engine_eq:
  "half_started_engine =
     shared_port_engine\<lparr>IsRunning_results := Inr True ## Inr False ## sconst (Inr False),
       MapPort_results := sconst None,
       containerByPort := [''8083'' \<mapsto> ''c2'', ''8084'' \<mapsto> ''c5''],
       port_calls := [CallIsRunning ''c2'', CallMapPort 8084 ''80/tcp'' ''172.16.0.5'',
                      CallMapPort 8083 ''80/tcp'' ''172.16.0.5'']\<rparr>"
  by (simp add: half_started_engine_def cleanupPortBindings_def cleanup_step_def mapPorts_def
      Let_def c5_container_def c2_container_def shared_port_engine_def port_engine_def binding_def
      ask_IsRunning_def ask_MapPort_def split_facts port_facts parse_facts decimal_facts)

text \<open>
  Claim C5 fails on the code: a host port whose owner the call has just confirmed running
  is unmapped by the same call. In the state left by the failed start of \<^verbatim>\<open>c5\<close>,
  container \<^verbatim>\<open>c3\<close> requests 8083 and 8084. The owner of 8083, \<^verbatim>\<open>c2\<close>, is
  reported running and the step leaves 8083 mapped. The owner of 8084, \<^verbatim>\<open>c5\<close>, is
  reported not running, and \<^verbatim>\<open>unmapPorts\<close> on the bindings of \<^verbatim>\<open>c5\<close>, which
  never compares owners, unmaps 8084 and 8083. The call returns no error.
\<close>

theorem cleanupPortBindings_unmaps_port_of_running_owner:
  "containerByPort half_started_engine ''8083'' = Some ''c2'' \<and>
   containerByPort half_started_engine ''8084'' = Some ''c5'' \<and>
   snd (cleanupPortBindings example_library c3_container half_started_engine) = None \<and>
   port_calls (fst (cleanupPortBindings example_library c3_container half_started_engine)) =
     port_calls half_started_engine @
       [CallIsRunning ''c2'', CallIsRunning ''c5'',
        CallUnmapPort 8084 ''80/tcp'', CallUnmapPort 8083 ''80/tcp''] \<and>
   containerByPort (fst (cleanupPortBindings example_library c3_container half_started_engine))
     ''8083'' = None"
  by (simp add: half_started_engine_eq cleanupPortBindings_def cleanup_step_def unmapPorts_def
      Let_def c3_container_def c5_container_def c2_container_def shared_port_engine_def port_engine_def
      binding_def ask_IsRunning_def ask_UnmapPort_def split_facts port_facts parse_facts
      decimal_facts)

lemma unroll_bindings_explicit_pure:
  assumes "list_all (\<lambda>b. HostPort b \<noteq> []) pb"
  shows "fst (unroll_bindings L proto nport pb w) = w"
    and "snd (unroll_bindings L proto nport pb w) = snd (unroll_bindings L proto nport pb w')"
  using assms
proof (induction pb)
  case Nil
  {
    case 1 show ?case by simp
  next
    case 2 show ?case by simp
  }
next
  case (Cons p pb)
  {
    case 1
    with Cons.IH(1) show ?case by (simp add: split_beta split: sum.splits)
  next
    case 2
    with Cons.IH(1) [of ] Cons.IH(2) show ?case
      by (simp add: split_beta split: sum.splits)
  }
qed

lemma unrollPortMap_explicit_pure:
  assumes "explicit pm"
  shows "fst (unrollPortMap L pm w) = w"
    and "snd (unrollPortMap L pm w) = snd (unrollPortMap L pm w')"
  using assms
proof (induction pm)
  case Nil
  {
    case 1 show ?case by simp
  next
    case 2 show ?case by simp
  }
next
  case (Cons e pm)
  obtain i pb where e: "e = (i, pb)" by (cases e)
  {
    case 1
    then have a: "list_all (\<lambda>b. HostPort b \<noteq> []) pb" and b: "explicit pm"
      by (simp_all add: explicit_def requested_def e)
    from Cons.IH(1) [OF b] unroll_bindings_explicit_pure(1) [OF a]
    show ?case by (simp add: e split_beta split: sum.splits)
  next
    case 2
    then have a: "list_all (\<lambda>b. HostPort b \<noteq> []) pb" and b: "explicit pm"
      by (simp_all add: explicit_def requested_def e)
    from Cons.IH(1) [OF b] Cons.IH(2) [OF b] unroll_bindings_explicit_pure(1) [OF a]
      unroll_bindings_explicit_pure(2) [OF a, of L _ _ w w']
    show ?case by (simp add: e split_beta split: sum.splits)
  }
qed

lemma unmapPorts_loop_absent:
  "\<forall>m \<in> set ms. containerByPort w (strHostPort m) = None \<Longrightarrow> unmapPorts_loop ms w = (w, None)"
  by (induction ms) simp_all

text \<open>
  Where every binding names its host port, \<^verbatim>\<open>unmapPorts\<close> is idempotent: after a
  call that returned no error, a second call returns no error and changes nothing, and the
  index has no entry for the host ports of the bindings.
\<close>

theorem unmapPorts_idempotent_on_explicit_bindings:
  assumes "explicit (PortBindings hc)" and "snd (unmapPorts L hc w) = None"
  shows "unmapPorts L hc (fst (unmapPorts L hc w)) = (fst (unmapPorts L hc w), None) \<and>
         (\<forall>b \<in> set (requested (PortBindings hc)). \<forall>n. Atoi L (HostPort b) = Inr n \<longrightarrow>
            containerByPort (fst (unmapPorts L hc w)) (Itoa L n) = None)"
proof (cases "PortBindings hc = []")
  case True
  then show ?thesis by (simp add: unmapPorts_def requested_def)
next
  case False
  let ?w' = "fst (unmapPorts L hc w)"
  from unrollPortMap_explicit_pure [OF assms(1)]
  have pure: "fst (unrollPortMap L (PortBindings hc) w) = w"
    "fst (unrollPortMap L (PortBindings hc) ?w') = ?w'"
    "snd (unrollPortMap L (PortBindings hc) ?w') = snd (unrollPortMap L (PortBindings hc) w)"
    by blast+
  from assms(2) False obtain ms where ms: "snd (unrollPortMap L (PortBindings hc) w) = Inr ms"
    by (cases "snd (unrollPortMap L (PortBindings hc) w)") (simp_all add: unmapPorts_def split_beta)
  with False pure have eq: "unmapPorts L hc w = unmapPorts_loop ms w"
    by (simp add: unmapPorts_def split_beta)
  from ms False pure have eq': "unmapPorts L hc ?w' = unmapPorts_loop ms ?w'"
    by (simp add: unmapPorts_def split_beta)
  from assms(2) eq have ok: "snd (unmapPorts_loop ms w) = None" by simp
  from unmapPorts_loop_clears [OF ok] eq
  have "\<forall>m \<in> set ms. containerByPort ?w' (strHostPort m) = None" by simp
  from unmapPorts_loop_absent [OF this] eq'
  have first: "unmapPorts L hc ?w' = (?w', None)" by simp
  have second: "containerByPort ?w' (Itoa L n) = None"
    if "b \<in> set (requested (PortBindings hc))" and "Atoi L (HostPort b) = Inr n" for b n
  proof -
    from assms(1) that(1) have "HostPort b \<noteq> []" by (simp add: explicit_def list_all_iff)
    from unmapPorts_clears [OF assms(2) that(1) this that(2)] show ?thesis .
  qed
  from first second show ?thesis by blast
qed

theorem unmapPorts_idempotent_on_explicit_bindings_witness:
  "explicit (PortBindings explicit_config) \<and>
   snd (unmapPorts example_library explicit_config stale_engine) = None \<and>
   unmapPorts example_library explicit_config
       (fst (unmapPorts example_library explicit_config stale_engine)) =
     (fst (unmapPorts example_library explicit_config stale_engine), None) \<and>
   containerByPort (fst (unmapPorts example_library explicit_config stale_engine)) ''8083'' = None"
proof -
  have a: "explicit (PortBindings explicit_config)"
    by (simp add: explicit_def explicit_config_def requested_def binding_def)
  have b: "snd (unmapPorts example_library explicit_config stale_engine) = None"
    by (simp add: unmapPorts_def explicit_config_def stale_engine_def binding_def port_engine_def
        ask_UnmapPort_def split_facts port_facts parse_facts decimal_facts)
  have c: "binding ''8083'' \<in> set (requested (PortBindings explicit_config))"
    by (simp add: explicit_config_def requested_def)
  have d: "Atoi example_library (HostPort (binding ''8083'')) = Inr 8083"
    by (simp add: binding_def parse_facts)
  from unmapPorts_idempotent_on_explicit_bindings [OF a b] c d
  have "unmapPorts example_library explicit_config
       (fst (unmapPorts example_library explicit_config stale_engine)) =
     (fst (unmapPorts example_library explicit_config stale_engine), None)"
    and "containerByPort (fst (unmapPorts example_library explicit_config stale_engine))
       (Itoa example_library 8083) = None"
    by blast+
  with a b show ?thesis by (simp add: decimal_facts)
qed

end
